theory Spec2Isabelle
  imports Complex_Main "HOL-Library.Sublist"
begin

section \<open>JavaScript values\<close>

text \<open>
  The values that flow through \<^verbatim>\<open>src/utils.ts\<close> are untyped at run time: a setting's
  \<^verbatim>\<open>value\<close> is \<^verbatim>\<open>any\<close>, and so is every field of the \<^verbatim>\<open>Overlay\<close> that
  \<^verbatim>\<open>getOverlay\<close> builds from it. They are modelled as primitive JavaScript values.
  A number is \<^verbatim>\<open>NaN\<close>, an infinity, or a finite binary64 value, which is kept as the
  rational it denotes (both zeros are the rational 0: they are equal under \<^verbatim>\<open>===\<close>,
  both falsy, and \<^verbatim>\<open>toFixed\<close> prints them alike).
\<close>

datatype jsnum = NaN | PosInf | NegInf | Fin rat

datatype jsval = JUndefined | JNull | JBool bool | JNum jsnum | JStr string

datatype js_error = TypeError | RangeError

text \<open>Truthiness (\<^verbatim>\<open>ToBoolean\<close>), as used by \<^verbatim>\<open>&&\<close>, \<^verbatim>\<open>||\<close> and \<^verbatim>\<open>if\<close>.\<close>

fun truthy :: "jsval \<Rightarrow> bool" where
  "truthy JUndefined = False"
| "truthy JNull = False"
| "truthy (JBool b) = b"
| "truthy (JNum NaN) = False"
| "truthy (JNum (Fin q)) = (q \<noteq> 0)"
| "truthy (JNum _) = True"
| "truthy (JStr s) = (s \<noteq> [])"

text \<open>\<^verbatim>\<open>a ?? b\<close>: the right operand replaces \<^verbatim>\<open>undefined\<close> and \<^verbatim>\<open>null\<close> only.\<close>

fun nullish :: "jsval \<Rightarrow> bool" where
  "nullish JUndefined = True"
| "nullish JNull = True"
| "nullish _ = False"

definition nullish_or :: "jsval \<Rightarrow> jsval \<Rightarrow> jsval" where
  "nullish_or a b = (if nullish a then b else a)"

text \<open>\<^verbatim>\<open>a || b\<close> on values.\<close>

definition falsy_or :: "jsval \<Rightarrow> jsval \<Rightarrow> jsval" where
  "falsy_or a b = (if truthy a then a else b)"

text \<open>\<^verbatim>\<open>a !== b\<close> on primitive values: \<^verbatim>\<open>NaN\<close> differs from itself.\<close>

definition strict_neq :: "jsval \<Rightarrow> jsval \<Rightarrow> bool" where
  "strict_neq a b = (a \<noteq> b \<or> a = JNum NaN)"

section \<open>The host platform\<close>

text \<open>
  \<^verbatim>\<open>ScryptedInterface\<close> is an enumeration of the SDK; the three members the code names
  are constructors of their own.
\<close>

datatype scrypted_interface = Thermometer | HumiditySensor | ObjectDetection | OtherInterface string

text \<open>What the code reads from a device of the registry.\<close>

record ScryptedDeviceBase =
  name :: string
  interfaces :: "scrypted_interface list"
  temperature :: jsval
  humidity :: jsval
  temperatureUnit :: "string option"

text \<open>
  The platform is a parameter of the model: \<^verbatim>\<open>sdk.systemManager.getDeviceById\<close> is the
  device registry; \<open>stringToNumber\<close> is \<^verbatim>\<open>Number\<close> on a string and \<open>numberToString\<close>
  is \<^verbatim>\<open>Number::toString\<close> on a finite magnitude of at least \<open>10^21\<close>, both of
  which depend on binary64 rounding and are left to the host.
\<close>

record host =
  getDeviceById :: "jsval \<Rightarrow> ScryptedDeviceBase option"
  stringToNumber :: "string \<Rightarrow> jsnum"
  numberToString :: "rat \<Rightarrow> string"

section \<open>Overlay model\<close>

text \<open>\<^verbatim>\<open>OverlayType\<close> and \<^verbatim>\<open>ListenerType\<close> are string enumerations.\<close>

definition OverlayType_Text :: jsval where "OverlayType_Text = JStr ''Text''"
definition OverlayType_Device :: jsval where "OverlayType_Device = JStr ''Device''"
definition OverlayType_FaceDetection :: jsval where "OverlayType_FaceDetection = JStr ''FaceDetection''"

datatype ListenerType = Face | Humidity | Temperature

text \<open>
  The fields of \<^verbatim>\<open>Overlay\<close> carry the prefix \<open>o_\<close> (\<open>text\<close> is a keyword, and
  field names are shared by all records of the theory).
\<close>

record Overlay =
  o_text :: jsval
  o_type :: jsval
  o_device :: jsval
  o_regex :: jsval
  o_maxDecimals :: jsval

definition osdManagerPrefix :: string where
  "osdManagerPrefix = ''osdManager''"

record OverlayKeys =
  textKey :: string
  typeKey :: string
  regexKey :: string
  deviceKey :: string
  maxDecimalsKey :: string

definition getOverlayKeys :: "string \<Rightarrow> OverlayKeys" where
  "getOverlayKeys overlayId =
     \<lparr> textKey = ''overlay:'' @ overlayId @ '':text'',
       typeKey = ''overlay:'' @ overlayId @ '':type'',
       regexKey = ''overlay:'' @ overlayId @ '':regex'',
       deviceKey = ''overlay:'' @ overlayId @ '':device'',
       maxDecimalsKey = ''overlay:'' @ overlayId @ '':maxDecimals'' \<rparr>"

text \<open>A \<^verbatim>\<open>Setting\<close> of the SDK, with the fields \<^verbatim>\<open>getOverlaySettings\<close> fills in.\<close>

record Setting =
  key :: string
  title :: string
  description :: "string option"
  stype :: string
  choices :: "string list option"
  subgroup :: "string option"
  placeholder :: "string option"
  deviceFilter :: "string option"
  immediate :: "bool option"
  svalue :: jsval

definition default_regex :: string where
  "default_regex = ''${value} ${unit}''"


text \<open>\<^verbatim>\<open>deviceFilter\<close>, with the two interface names spliced in.\<close>

definition deviceFilter_const :: string where
  "deviceFilter_const =
     ''['Thermometer','HumiditySensor'].some(elem => interfaces.includes(elem))''"

text \<open>An object literal that sets none of the optional fields.\<close>

definition plain_setting :: "string \<Rightarrow> string \<Rightarrow> string \<Rightarrow> string \<Rightarrow> jsval \<Rightarrow> Setting" where
  "plain_setting k t ty sg v =
     \<lparr> key = k, title = t, description = None, stype = ty, choices = None,
       subgroup = Some sg, placeholder = None, deviceFilter = None, immediate = None,
       svalue = v \<rparr>"

text \<open>
  \<^verbatim>\<open>getOverlaySettings\<close>, lines 56 to 128. The storage is its \<^verbatim>\<open>getItem\<close>. The body of
  the loop is \<open>getOverlaySettings_body\<close>: the entries pushed for one overlay id.
\<close>

definition getOverlaySettings_body :: "(string \<Rightarrow> jsval) \<Rightarrow> string \<Rightarrow> Setting list" where
  "getOverlaySettings_body getItem overlayId =
     (let overlayName = ''Overlay '' @ overlayId;
          keys = getOverlayKeys overlayId;
          ty = nullish_or (getItem (typeKey keys)) OverlayType_Text;
          typeSetting = (plain_setting (typeKey keys) ''Overlay type'' ''string'' overlayName ty)
            \<lparr> choices := Some [''Text'', ''Device'', ''FaceDetection''], immediate := Some True \<rparr>;
          textSetting = plain_setting (textKey keys) ''Text'' ''string'' overlayName
            (getItem (textKey keys));
          regexSetting = (plain_setting (regexKey keys) ''Value regex'' ''string'' overlayName
            (falsy_or (getItem (regexKey keys)) (JStr default_regex)))
            \<lparr> description := Some
                ''Expression to generate the text. ${value} contains the value and ${unit} the unit'',
              placeholder := Some default_regex \<rparr>;
          deviceSetting = (plain_setting (deviceKey keys) ''Device'' ''device'' overlayName
            (getItem (deviceKey keys)))
            \<lparr> deviceFilter := Some deviceFilter_const, immediate := Some True \<rparr>;
          maxDecimalsSetting = plain_setting (maxDecimalsKey keys) ''Max decimals'' ''number''
            overlayName (nullish_or (getItem (maxDecimalsKey keys)) (JNum (Fin 1)))
      in [typeSetting]
         @ (if ty = OverlayType_Text then [textSetting] else [])
         @ (if ty = OverlayType_Device then [deviceSetting, regexSetting, maxDecimalsSetting]
            else if ty = OverlayType_FaceDetection then [regexSetting]
            else []))"

definition getOverlaySettings :: "(string \<Rightarrow> jsval) \<Rightarrow> string list \<Rightarrow> Setting list" where
  "getOverlaySettings getItem overlayIds =
     concat (map (getOverlaySettings_body getItem) overlayIds)"

text \<open>
  \<^verbatim>\<open>getOverlay\<close>, lines 130 to 155. \<^verbatim>\<open>settings.reduce\<close> builds an object keyed by
  \<^verbatim>\<open>curr.key\<close>, a later entry replacing an earlier one with the same key;
  \<open>value_at\<close> is \<^verbatim>\<open>settingsByKey[k]?.value\<close>.
\<close>

definition settingsByKey :: "Setting list \<Rightarrow> (string \<rightharpoonup> Setting)" where
  "settingsByKey settings = foldl (\<lambda>tot curr. tot(key curr \<mapsto> curr)) Map.empty settings"

definition value_at :: "(string \<rightharpoonup> Setting) \<Rightarrow> string \<Rightarrow> jsval" where
  "value_at byKey k = (case byKey k of None \<Rightarrow> JUndefined | Some s \<Rightarrow> svalue s)"

definition prefixed :: "string \<Rightarrow> string" where
  "prefixed k = osdManagerPrefix @ '':'' @ k"

definition getOverlay :: "Setting list \<Rightarrow> string \<Rightarrow> Overlay" where
  "getOverlay settings overlayId =
     (let byKey = settingsByKey settings;
          keys = getOverlayKeys overlayId
      in \<lparr> o_text = value_at byKey (prefixed (textKey keys)),
           o_type = nullish_or (value_at byKey (prefixed (typeKey keys))) OverlayType_Text,
           o_device = value_at byKey (prefixed (deviceKey keys)),
           o_regex = value_at byKey (prefixed (regexKey keys)),
           o_maxDecimals = value_at byKey (prefixed (maxDecimalsKey keys)) \<rparr>)"

section \<open>Template formatter\<close>

subsection \<open>The built-ins it calls\<close>

text \<open>\<^verbatim>\<open>ToNumber\<close> on a primitive value.\<close>

fun to_number :: "host \<Rightarrow> jsval \<Rightarrow> jsnum" where
  "to_number h JUndefined = NaN"
| "to_number h JNull = Fin 0"
| "to_number h (JBool b) = Fin (if b then 1 else 0)"
| "to_number h (JNum n) = n"
| "to_number h (JStr s) = stringToNumber h s"

text \<open>\<^verbatim>\<open>ToIntegerOrInfinity\<close>: \<^verbatim>\<open>NaN\<close> becomes 0, a finite number is truncated.\<close>

fun to_integer_or_infinity :: "jsnum \<Rightarrow> jsnum" where
  "to_integer_or_infinity NaN = Fin 0"
| "to_integer_or_infinity PosInf = PosInf"
| "to_integer_or_infinity NegInf = NegInf"
| "to_integer_or_infinity (Fin q) = Fin (of_int (if 0 \<le> q then \<lfloor>q\<rfloor> else \<lceil>q\<rceil>))"

text \<open>The decimal representation of a natural number.\<close>

definition digit_char :: "nat \<Rightarrow> char" where
  "digit_char d = ''0123456789'' ! d"

fun digits :: "nat \<Rightarrow> string" where
  "digits n = (if n < 10 then [digit_char n] else digits (n div 10) @ [digit_char (n mod 10)])"

declare digits.simps [simp del]

text \<open>
  \<^verbatim>\<open>Number.prototype.toFixed\<close>, steps 7 to 12 of the standard, on a finite value \<open>q\<close>
  with \<open>f\<close> fraction digits: \<open>n\<close> is the integer nearest to \<open>q * 10^f\<close>, the larger one
  of two.
\<close>

definition fixed_string :: "host \<Rightarrow> rat \<Rightarrow> nat \<Rightarrow> string" where
  "fixed_string h q f =
     (let s = (if q < 0 then ''-'' else []);
          x = \<bar>q\<bar>
      in if 10 ^ 21 \<le> x then s @ numberToString h x
         else
           (let n = nat \<lfloor>x * 10 ^ f + 1 / 2\<rfloor>;
                m = digits n
            in if f \<noteq> 0 then
                 (let k = length m;
                      m' = (if k \<le> f then replicate (f + 1 - k) (CHR ''0'') @ m else m);
                      k' = length m'
                  in s @ take (k' - f) m' @ ''.'' @ drop (k' - f) m')
               else s @ m))"

text \<open>
  \<^verbatim>\<open>x.toFixed(fractionDigits)\<close>: the range check on the fraction digits comes before the
  test for a non-finite \<open>x\<close>.
\<close>

definition toFixed :: "host \<Rightarrow> jsnum \<Rightarrow> jsval \<Rightarrow> js_error + string" where
  "toFixed h x fractionDigits =
     (case to_integer_or_infinity (to_number h fractionDigits) of
        Fin f \<Rightarrow>
          if f < 0 \<or> 100 < f then Inl RangeError
          else (case x of
                  NaN \<Rightarrow> Inr ''NaN''
                | PosInf \<Rightarrow> Inr ''Infinity''
                | NegInf \<Rightarrow> Inr ''-Infinity''
                | Fin q \<Rightarrow> Inr (fixed_string h q (nat \<lfloor>f\<rfloor>)))
      | _ \<Rightarrow> Inl RangeError)"

text \<open>
  \<^verbatim>\<open>String.prototype.replace\<close> with a string pattern: the first occurrence only, and the
  replacement text is expanded by \<^verbatim>\<open>GetSubstitution\<close>. Without capture groups its
  patterns are a dollar sign followed by a dollar sign, an ampersand, a backquote or a
  quote; any other dollar sign is kept.
\<close>

fun split_first :: "string \<Rightarrow> string \<Rightarrow> (string \<times> string) option" where
  "split_first pat [] = (if pat = [] then Some ([], []) else None)"
| "split_first pat (c # cs) =
     (if prefix pat (c # cs) then Some ([], drop (length pat) (c # cs))
      else map_option (\<lambda>(pre, post). (c # pre, post)) (split_first pat cs))"

fun get_substitution :: "string \<Rightarrow> string \<Rightarrow> string \<Rightarrow> string \<Rightarrow> string" where
  "get_substitution matched pre post [] = []"
| "get_substitution matched pre post [c] = [c]"
| "get_substitution matched pre post (c # d # rest) =
     (if c = CHR ''$'' then
        (if d = CHR ''$'' then CHR ''$'' # get_substitution matched pre post rest
         else if d = CHR ''&'' then matched @ get_substitution matched pre post rest
         else if d = CHR ''`'' then pre @ get_substitution matched pre post rest
         else if d = CHR 0x27 then post @ get_substitution matched pre post rest
         else c # get_substitution matched pre post (d # rest))
      else c # get_substitution matched pre post (d # rest))"

definition js_replace :: "string \<Rightarrow> string \<Rightarrow> string \<Rightarrow> string" where
  "js_replace str pat replacement =
     (case split_first pat str of
        None \<Rightarrow> str
      | Some (pre, post) \<Rightarrow>
          pre @ get_substitution pat pre post replacement @ post)"

subsection \<open>Event data\<close>

text \<open>
  The \<^verbatim>\<open>data\<close> of an update is a primitive value (a sensor reading, a static text) or
  an \<^verbatim>\<open>ObjectsDetected\<close> object, whose \<^verbatim>\<open>detections\<close> may be absent.
\<close>

record ObjectDetectionResult =
  className :: string
  label :: "string option"

datatype evdata = Prim jsval | ObjectsDetected "ObjectDetectionResult list option"

text \<open>\<^verbatim>\<open>data?.detections?.find(det => det.className === 'face')?.label\<close>\<close>

definition face_label :: "evdata \<Rightarrow> string option" where
  "face_label data =
     (case data of
        Prim v \<Rightarrow> None
      | ObjectsDetected None \<Rightarrow> None
      | ObjectsDetected (Some detections) \<Rightarrow>
          (case find (\<lambda>det. className det = ''face'') detections of
             None \<Rightarrow> None
           | Some det \<Rightarrow> label det))"

text \<open>\<^verbatim>\<open>Number(data ?? 0)\<close>; an object converts to \<^verbatim>\<open>NaN\<close>.\<close>

definition number_of_data :: "host \<Rightarrow> evdata \<Rightarrow> jsnum" where
  "number_of_data h data =
     (case data of
        Prim v \<Rightarrow> to_number h (nullish_or v (JNum (Fin 0)))
      | ObjectsDetected ds \<Rightarrow> NaN)"

text \<open>A string or \<^verbatim>\<open>undefined\<close> in a condition, and as the left operand of \<^verbatim>\<open>||\<close>.\<close>

definition str_truthy :: "string option \<Rightarrow> bool" where
  "str_truthy v = (case v of None \<Rightarrow> False | Some s \<Rightarrow> s \<noteq> [])"

definition str_or_empty :: "string option \<Rightarrow> string" where
  "str_or_empty v = (case v of None \<Rightarrow> [] | Some s \<Rightarrow> s)"

subsection \<open>parseOverlayData\<close>

text \<open>
  Lines 242 to 271. \<open>overlay_value_unit\<close> is the \<^verbatim>\<open>if\<close> chain that assigns
  \<^verbatim>\<open>value\<close> and \<^verbatim>\<open>unit\<close>: \<^verbatim>\<open>toFixed\<close> may raise a \<^verbatim>\<open>RangeError\<close>, and reading
  \<^verbatim>\<open>temperatureUnit\<close> of a device that was not found a \<^verbatim>\<open>TypeError\<close>.
  \<^verbatim>\<open>regex.replace\<close> raises a \<^verbatim>\<open>TypeError\<close> unless \<^verbatim>\<open>regex\<close> is a string.
\<close>

definition overlay_value_unit ::
  "host \<Rightarrow> ListenerType option \<Rightarrow> evdata \<Rightarrow> Overlay \<Rightarrow> js_error + (string option \<times> string option)" where
  "overlay_value_unit h listenerType data overlay =
     (let realDevice = (if truthy (o_device overlay) then getDeviceById h (o_device overlay)
                        else None)
      in case listenerType of
           Some Face \<Rightarrow> Inr (face_label data, None)
         | Some Temperature \<Rightarrow>
             (case toFixed h (number_of_data h data) (o_maxDecimals overlay) of
                Inl e \<Rightarrow> Inl e
              | Inr v \<Rightarrow>
                  (case realDevice of
                     None \<Rightarrow> Inl TypeError
                   | Some d \<Rightarrow> Inr (Some v, temperatureUnit d)))
         | Some Humidity \<Rightarrow>
             (case toFixed h (number_of_data h data) (o_maxDecimals overlay) of
                Inl e \<Rightarrow> Inl e
              | Inr v \<Rightarrow> Inr (Some v, Some ''%''))
         | None \<Rightarrow> Inr (None, None))"

definition parseOverlayData ::
  "host \<Rightarrow> ListenerType option \<Rightarrow> evdata \<Rightarrow> Overlay \<Rightarrow> js_error + jsval" where
  "parseOverlayData h listenerType data overlay =
     (case overlay_value_unit h listenerType data overlay of
        Inl e \<Rightarrow> Inl e
      | Inr (val, unit) \<Rightarrow>
          if str_truthy val then
            (case o_regex overlay of
               JStr r \<Rightarrow>
                 Inr (JStr (js_replace (js_replace r ''${value}'' (str_or_empty val))
                                       ''${unit}'' (str_or_empty unit)))
             | _ \<Rightarrow> Inl TypeError)
          else Inr (o_text overlay))"

section \<open>Listener reconciler\<close>

text \<open>
  An entry of \<^verbatim>\<open>ListenersMap\<close>. The \<^verbatim>\<open>EventListenerRegister\<close> that
  \<^verbatim>\<open>realDevice.listen\<close> returns is a handle, numbered in the order of issue.
\<close>

record ListenerEntry =
  listenerType :: ListenerType
  listener :: nat
  device :: jsval

text \<open>
  The argument of \<^verbatim>\<open>onUpdateFn\<close>; an optional property that the call site leaves out
  is \<open>None\<close>.
\<close>

record UpdateProps =
  p_overlayId :: string
  p_listenerType :: "ListenerType option"
  p_listenInterface :: "scrypted_interface option"
  p_data :: evdata
  p_device :: "ScryptedDeviceBase option"
  p_noLog :: "bool option"

text \<open>
  What one pass does to the outside, in program order. A release and a subscription carry
  the overlay id whose iteration performs them. The two log lines are kept as their
  arguments.
\<close>

datatype LogMessage =
    DeviceNotFound jsval
  | StartingListener string string ListenerType scrypted_interface

datatype Effect =
    ConsoleLog LogMessage
  | RemoveListener string nat
  | Listen string jsval scrypted_interface nat
  | OnUpdate UpdateProps

text \<open>
  The state a pass works on: the \<^verbatim>\<open>currentListeners\<close> object, which the caller owns
  and the pass mutates, and the number of the next handle \<^verbatim>\<open>listen\<close> will issue.
\<close>

record ListenerState =
  currentListeners :: "string \<rightharpoonup> ListenerEntry"
  nextListener :: nat

text \<open>
  Lines 173 to 196: \<^verbatim>\<open>listenerType\<close>, \<^verbatim>\<open>listenInterface\<close> and \<^verbatim>\<open>deviceId\<close> are
  assigned together or not at all; the \<^verbatim>\<open>console.log\<close> of the missing device is the
  first component. The parameter \<^verbatim>\<open>id\<close> is written \<open>id'\<close>.
\<close>

definition resolveListener ::
  "host \<Rightarrow> string \<Rightarrow> Overlay \<Rightarrow> Effect list \<times> (ListenerType \<times> scrypted_interface \<times> jsval) option" where
  "resolveListener h id' overlay =
     (if o_type overlay = OverlayType_Device then
        (case getDeviceById h (o_device overlay) of
           Some realDevice \<Rightarrow>
             if Thermometer \<in> set (interfaces realDevice)
             then ([], Some (Temperature, Thermometer, o_device overlay))
             else if HumiditySensor \<in> set (interfaces realDevice)
             then ([], Some (Humidity, HumiditySensor, o_device overlay))
             else ([], None)
         | None \<Rightarrow> ([ConsoleLog (DeviceNotFound (o_device overlay))], None))
      else if o_type overlay = OverlayType_FaceDetection
      then ([], Some (Face, ObjectDetection, JStr id'))
      else ([], None))"

text \<open>\<^verbatim>\<open>currentListener?.listener && currentListener.listener.removeListener()\<close>\<close>

definition release_current :: "string \<Rightarrow> ListenerEntry option \<Rightarrow> Effect list" where
  "release_current overlayId currentListener =
     (case currentListener of
        None \<Rightarrow> []
      | Some l \<Rightarrow> [RemoveListener overlayId (listener l)])"

text \<open>
  The body of the loop, lines 168 to 238, for one overlay id. It raises a
  \<^verbatim>\<open>TypeError\<close> at line 205 when the device to listen to is not in the registry
  (\<^verbatim>\<open>realDevice.name\<close> of \<^verbatim>\<open>undefined\<close>); nothing has been done for this overlay id
  by then. The registry's own calls and \<^verbatim>\<open>onUpdateFn\<close>, an \<^verbatim>\<open>async\<close> function, are
  taken not to raise.
\<close>

definition listenersIntevalFn_body ::
  "host \<Rightarrow> Setting list \<Rightarrow> string \<Rightarrow> string \<Rightarrow> ListenerState
     \<Rightarrow> js_error + (Effect list \<times> ListenerState)" where
  "listenersIntevalFn_body h settings id' overlayId s =
     (let overlay = getOverlay settings overlayId;
          overlayType = o_type overlay;
          (logs, resolved) = resolveListener h id' overlay;
          currentListener = currentListeners s overlayId;
          currentDevice = (case currentListener of None \<Rightarrow> JUndefined | Some l \<Rightarrow> device l);
          differentDevice = (if o_type overlay = OverlayType_Device
                             then strict_neq currentDevice (o_device overlay) else False)
      in case resolved of
           Some (lType, listenInterface, deviceId) \<Rightarrow>
             (let differentType = (case currentListener of
                                     None \<Rightarrow> True
                                   | Some l \<Rightarrow> listenerType l \<noteq> lType)
              in if truthy deviceId \<and> (differentType \<or> differentDevice) then
                   (case getDeviceById h deviceId of
                      None \<Rightarrow> Inl TypeError
                    | Some realDevice \<Rightarrow>
                        (let update = (\<lambda>data. OnUpdate
                               \<lparr> p_overlayId = overlayId, p_listenerType = Some lType,
                                 p_listenInterface = Some listenInterface, p_data = Prim data,
                                 p_device = Some realDevice, p_noLog = None \<rparr>);
                             newListener = nextListener s
                         in Inr (logs
                                 @ [ConsoleLog (StartingListener overlayId (name realDevice)
                                                  lType listenInterface)]
                                 @ release_current overlayId currentListener
                                 @ [Listen overlayId deviceId listenInterface newListener]
                                 @ (if listenInterface = Thermometer
                                    then [update (temperature realDevice)]
                                    else if listenInterface = HumiditySensor
                                    then [update (humidity realDevice)]
                                    else []),
                                 s\<lparr> currentListeners := (currentListeners s)(overlayId \<mapsto>
                                        \<lparr> listenerType = lType, listener = newListener,
                                          device = o_device overlay \<rparr>),
                                    nextListener := Suc (nextListener s) \<rparr>)))
                 else Inr (logs, s))
         | None \<Rightarrow>
             if overlayType = OverlayType_Text then
               Inr (logs
                    @ release_current overlayId currentListener
                    @ [OnUpdate \<lparr> p_overlayId = overlayId, p_listenerType = None,
                                  p_listenInterface = None, p_data = Prim (o_text overlay),
                                  p_device = None, p_noLog = Some True \<rparr>],
                    s)
             else Inr (logs, s))"

text \<open>
  \<^verbatim>\<open>listenersIntevalFn\<close>, lines 157 to 240: the loop over \<^verbatim>\<open>overlayIds\<close>. There is no
  \<^verbatim>\<open>try\<close> in it, so an exception of one iteration ends the pass; the result is what
  was done before, the state as it is then, and the exception if there was one.
\<close>

fun listenersIntevalFn ::
  "host \<Rightarrow> string list \<Rightarrow> Setting list \<Rightarrow> string \<Rightarrow> ListenerState
     \<Rightarrow> Effect list \<times> ListenerState \<times> js_error option" where
  "listenersIntevalFn h [] settings id' s = ([], s, None)"
| "listenersIntevalFn h (overlayId # overlayIds) settings id' s =
     (case listenersIntevalFn_body h settings id' overlayId s of
        Inl e \<Rightarrow> ([], s, Some e)
      | Inr (effects, s') \<Rightarrow>
          (case listenersIntevalFn h overlayIds settings id' s' of
             (effects', s'', r) \<Rightarrow> (effects @ effects', s'', r)))"

text \<open>The subscriptions and releases among the effects of a pass.\<close>

fun is_subscribe :: "Effect \<Rightarrow> bool" where
  "is_subscribe (Listen overlayId deviceId listenInterface l) = True"
| "is_subscribe _ = False"

fun is_release :: "Effect \<Rightarrow> bool" where
  "is_release (RemoveListener overlayId l) = True"
| "is_release _ = False"

text \<open>
  The condition of line 203 under which the body subscribes, as a function of the
  \<^verbatim>\<open>currentListeners\<close> object: the slot resolves to a listener type, the device id is
  truthy, and the type or (for a \<^verbatim>\<open>Device\<close> slot) the device differs from the entry.
\<close>

definition subscribe_due ::
  "host \<Rightarrow> Setting list \<Rightarrow> string \<Rightarrow> string \<Rightarrow> (string \<rightharpoonup> ListenerEntry) \<Rightarrow> bool" where
  "subscribe_due h settings id' overlayId listeners =
     (let overlay = getOverlay settings overlayId
      in case snd (resolveListener h id' overlay) of
           None \<Rightarrow> False
         | Some (lType, listenInterface, deviceId) \<Rightarrow>
             truthy deviceId \<and>
             ((case listeners overlayId of None \<Rightarrow> True | Some l \<Rightarrow> listenerType l \<noteq> lType)
              \<or> (o_type overlay = OverlayType_Device \<and>
                  strict_neq (case listeners overlayId of None \<Rightarrow> JUndefined | Some l \<Rightarrow> device l)
                             (o_device overlay))))"

text \<open>
  The overlay id an effect belongs to: a release and a subscription the id whose iteration
  performs them, an update its \<^verbatim>\<open>overlayId\<close>.
\<close>

fun effect_overlay :: "Effect \<Rightarrow> string option" where
  "effect_overlay (ConsoleLog m) = None"
| "effect_overlay (RemoveListener overlayId l) = Some overlayId"
| "effect_overlay (Listen overlayId deviceId listenInterface l) = Some overlayId"
| "effect_overlay (OnUpdate props) = Some (p_overlayId props)"

text \<open>
  The two calls of \<^verbatim>\<open>onUpdateFn\<close>, named for the statements below: the static text of
  a \<^verbatim>\<open>Text\<close> slot (lines 232 to 237), and the current reading pushed through
  \<^verbatim>\<open>update\<close> right after \<^verbatim>\<open>listen\<close> (lines 218 to 222).
\<close>

definition static_update :: "Setting list \<Rightarrow> string \<Rightarrow> Effect" where
  "static_update settings overlayId =
     OnUpdate \<lparr> p_overlayId = overlayId, p_listenerType = None, p_listenInterface = None,
                p_data = Prim (o_text (getOverlay settings overlayId)), p_device = None,
                p_noLog = Some True \<rparr>"

definition current_update ::
  "string \<Rightarrow> ListenerType \<Rightarrow> scrypted_interface \<Rightarrow> ScryptedDeviceBase \<Rightarrow> Effect list" where
  "current_update overlayId lType listenInterface realDevice =
     (if listenInterface = Thermometer
      then [OnUpdate \<lparr> p_overlayId = overlayId, p_listenerType = Some lType,
                       p_listenInterface = Some listenInterface,
                       p_data = Prim (temperature realDevice),
                       p_device = Some realDevice, p_noLog = None \<rparr>]
      else if listenInterface = HumiditySensor
      then [OnUpdate \<lparr> p_overlayId = overlayId, p_listenerType = Some lType,
                       p_listenInterface = Some listenInterface,
                       p_data = Prim (humidity realDevice),
                       p_device = Some realDevice, p_noLog = None \<rparr>]
      else [])"

text \<open>
  The listener type a slot resolves to, \<open>None\<close> when \<^verbatim>\<open>listenerType\<close> stays
  \<^verbatim>\<open>undefined\<close>.
\<close>

definition resolved_kind :: "host \<Rightarrow> string \<Rightarrow> Overlay \<Rightarrow> ListenerType option" where
  "resolved_kind h id' overlay = map_option fst (snd (resolveListener h id' overlay))"

text \<open>
  The number a string of decimal digits denotes, to state what \<^verbatim>\<open>toFixed\<close> prints.
\<close>

definition digit_val :: "char \<Rightarrow> nat" where
  "digit_val c = of_char c - 48"

definition nat_of_digits :: "string \<Rightarrow> nat" where
  "nat_of_digits cs = foldl (\<lambda>a c. 10 * a + digit_val c) 0 cs"

section \<open>Example configurations\<close>

text \<open>
  A registry with three sensors and the camera itself, and settings for overlay 1 (and a
  static text for overlay 2) as the mixin hands them to \<^verbatim>\<open>getOverlay\<close>, the keys
  prefixed.
\<close>

definition ex_device :: "string \<Rightarrow> scrypted_interface list \<Rightarrow> ScryptedDeviceBase" where
  "ex_device n ifs =
     \<lparr> name = n, interfaces = ifs, temperature = JNum (Fin (43 / 2)),
       humidity = JNum (Fin 40), temperatureUnit = Some ''C'' \<rparr>"

definition ex_host :: host where
  "ex_host =
     \<lparr> getDeviceById = (\<lambda>v.
         if v = JStr ''A'' then Some (ex_device ''Attic'' [Thermometer])
         else if v = JStr ''B'' then Some (ex_device ''Barn'' [Thermometer, HumiditySensor])
         else if v = JStr ''H'' then Some (ex_device ''Hall'' [HumiditySensor])
         else if v = JStr ''cam'' then Some (ex_device ''Camera'' [ObjectDetection])
         else None),
       stringToNumber = (\<lambda>s. NaN),
       numberToString = (\<lambda>q. ''1e+21'') \<rparr>"

definition ex_setting :: "string \<Rightarrow> jsval \<Rightarrow> Setting" where
  "ex_setting k v = plain_setting (prefixed k) [] ''string'' ''Overlay'' v"

definition st_text :: "Setting list" where
  "st_text = [ex_setting ''overlay:1:type'' (JStr ''Text''),
              ex_setting ''overlay:1:text'' (JStr ''Hello'')]"

definition st_face :: "Setting list" where
  "st_face = [ex_setting ''overlay:1:type'' (JStr ''FaceDetection''),
              ex_setting ''overlay:1:regex'' (JStr ''${value}''),
              ex_setting ''overlay:2:text'' (JStr ''Porch'')]"

definition st_device :: "string \<Rightarrow> string \<Rightarrow> rat \<Rightarrow> Setting list" where
  "st_device d r m = [ex_setting ''overlay:1:type'' (JStr ''Device''),
                      ex_setting ''overlay:1:device'' (JStr d),
                      ex_setting ''overlay:1:regex'' (JStr r),
                      ex_setting ''overlay:1:maxDecimals'' (JNum (Fin m)),
                      ex_setting ''overlay:2:text'' (JStr ''Porch'')]"

definition s_empty :: ListenerState where
  "s_empty = \<lparr> currentListeners = Map.empty, nextListener = 0 \<rparr>"

definition s_bound :: "ListenerType \<Rightarrow> jsval \<Rightarrow> ListenerState" where
  "s_bound t d =
     \<lparr> currentListeners = [''1'' \<mapsto> \<lparr> listenerType = t, listener = 0, device = d \<rparr>],
       nextListener = 1 \<rparr>"

definition ex_overlay :: Overlay where
  "ex_overlay =
     \<lparr> o_text = JStr ''Hello'', o_type = OverlayType_Device, o_device = JStr ''A'',
       o_regex = JStr ''${value}${unit}'', o_maxDecimals = JNum (Fin 1) \<rparr>"

text \<open>
  Two more configurations: a face detection slot, overlay 3, listed before the device slot;
  and a registry that knows a thermometer under the empty id.
\<close>

definition st_face_then_device :: "Setting list" where
  "st_face_then_device =
     ex_setting ''overlay:3:type'' (JStr ''FaceDetection'') # st_device ''B'' ''${value} ${unit}'' 1"

definition ex_host_blank :: host where
  "ex_host_blank =
     \<lparr> getDeviceById = (\<lambda>v.
         if v = JStr [] then Some (ex_device ''Nameless'' [Thermometer]) else None),
       stringToNumber = (\<lambda>s. NaN),
       numberToString = (\<lambda>q. ''1e+21'') \<rparr>"

section \<open>Evaluation and basic facts\<close>

lemmas overlay_defs =
  getOverlay_def settingsByKey_def value_at_def prefixed_def osdManagerPrefix_def
  getOverlayKeys_def nullish_or_def falsy_or_def
  OverlayType_Text_def OverlayType_Device_def OverlayType_FaceDetection_def

lemmas reconciler_defs =
  listenersIntevalFn_body_def resolveListener_def release_current_def strict_neq_def

lemmas example_defs =
  ex_device_def ex_host_def ex_setting_def plain_setting_def st_text_def st_face_def
  st_device_def s_empty_def s_bound_def ex_overlay_def

lemmas formatter_defs =
  parseOverlayData_def overlay_value_unit_def toFixed_def fixed_string_def number_of_data_def
  face_label_def str_truthy_def str_or_empty_def js_replace_def digit_char_def

lemma OverlayType_distinct [simp]:
  "OverlayType_Text \<noteq> OverlayType_Device" "OverlayType_Device \<noteq> OverlayType_Text"
  "OverlayType_Text \<noteq> OverlayType_FaceDetection" "OverlayType_FaceDetection \<noteq> OverlayType_Text"
  "OverlayType_Device \<noteq> OverlayType_FaceDetection" "OverlayType_FaceDetection \<noteq> OverlayType_Device"
  by (simp_all add: OverlayType_Text_def OverlayType_Device_def OverlayType_FaceDetection_def)

subsection \<open>One iteration of the reconciler\<close>

lemma resolve_cases:
  "resolveListener h i ov = (logs, Some (lt, li, d)) \<Longrightarrow>
     logs = [] \<and>
     ((o_type ov = OverlayType_Device \<and> d = o_device ov \<and> getDeviceById h d \<noteq> None \<and>
       (lt, li) \<in> {(Temperature, Thermometer), (Humidity, HumiditySensor)})
      \<or> (o_type ov = OverlayType_FaceDetection \<and> lt = Face \<and> li = ObjectDetection \<and> d = JStr i))"
  by (auto simp: resolveListener_def split: if_splits option.splits)

lemma resolve_None_Text:
  "o_type ov = OverlayType_Text \<Longrightarrow> resolveListener h i ov = ([], None)"
  by (simp add: resolveListener_def)


text \<open>An iteration that is not due to subscribe leaves the state alone.\<close>

lemma body_settled:
  assumes "\<not> subscribe_due h st i oid (currentListeners s)"
  shows "listenersIntevalFn_body h st i oid s =
           Inr (fst (resolveListener h i (getOverlay st oid))
                @ (if o_type (getOverlay st oid) = OverlayType_Text
                   then release_current oid (currentListeners s oid)
                        @ [OnUpdate \<lparr> p_overlayId = oid, p_listenerType = None,
                             p_listenInterface = None, p_data = Prim (o_text (getOverlay st oid)),
                             p_device = None, p_noLog = Some True \<rparr>]
                   else []), s)"
  using assms
  apply (cases "resolveListener h i (getOverlay st oid)")
  subgoal for logs r
    apply (cases r)
     apply (auto simp: listenersIntevalFn_body_def subscribe_due_def Let_def
        dest!: resolve_cases
        split: option.splits if_splits prod.splits)
    done
  done

text \<open>After an iteration the slot is not due any more.\<close>

lemma body_makes_settled:
  assumes "listenersIntevalFn_body h st i oid s = Inr (evs, s')"
  shows "\<not> subscribe_due h st i oid (currentListeners s')"
  using assms
  apply (cases "resolveListener h i (getOverlay st oid)")
  subgoal for logs r
    apply (cases r)
     apply (auto simp: listenersIntevalFn_body_def subscribe_due_def Let_def strict_neq_def
        dest!: resolve_cases
        split: option.splits if_splits prod.splits)
    done
  done

lemma body_other:
  assumes "listenersIntevalFn_body h st i oid s = Inr (evs, s')" "oid' \<noteq> oid"
  shows "currentListeners s' oid' = currentListeners s oid'"
  using assms
  by (auto simp: listenersIntevalFn_body_def Let_def split: option.splits if_splits prod.splits)

lemma subscribe_due_cong:
  "m oid = m' oid \<Longrightarrow> subscribe_due h st i oid m = subscribe_due h st i oid m'"
  by (simp add: subscribe_due_def cong: option.case_cong)


lemma Text_never_due:
  "o_type (getOverlay st oid) = OverlayType_Text \<Longrightarrow> \<not> subscribe_due h st i oid m"
  by (simp add: subscribe_due_def resolve_None_Text)

text \<open>When an iteration raises.\<close>

lemma body_raises_iff:
  "listenersIntevalFn_body h st i oid s = Inl e \<longleftrightarrow>
     e = TypeError \<and> o_type (getOverlay st oid) = OverlayType_FaceDetection \<and> i \<noteq> [] \<and>
     getDeviceById h (JStr i) = None \<and>
     (case currentListeners s oid of None \<Rightarrow> True | Some l \<Rightarrow> listenerType l \<noteq> Face)"
  apply (cases "resolveListener h i (getOverlay st oid)")
  subgoal for logs r
    apply (cases r)
     apply (auto simp: listenersIntevalFn_body_def Let_def resolveListener_def
        split: option.splits if_splits prod.splits)
    done
  done


subsection \<open>A whole pass\<close>

lemma pass_keeps_settled:
  assumes "listenersIntevalFn h ids st i s = (evs, s', r)"
      and "\<not> subscribe_due h st i oid (currentListeners s)"
  shows "currentListeners s' oid = currentListeners s oid"
  using assms
proof (induction ids arbitrary: s evs)
  case Nil
  then show ?case by simp
next
  case (Cons x xs)
  show ?case
  proof (cases "listenersIntevalFn_body h st i x s")
    case (Inl e)
    with Cons.prems show ?thesis by simp
  next
    case (Inr p)
    obtain e t where p: "p = (e, t)" by (cases p)
    obtain evs' where rest: "listenersIntevalFn h xs st i t = (evs', s', r)"
      using Cons.prems(1) Inr p by (auto split: prod.splits)
    have keep: "currentListeners t oid = currentListeners s oid"
    proof (cases "x = oid")
      case True
      with body_settled [OF Cons.prems(2)] Inr p show ?thesis by simp
    next
      case False
      with body_other [of h st i x s e t oid] Inr p show ?thesis by simp
    qed
    then have "\<not> subscribe_due h st i oid (currentListeners t)"
      using Cons.prems(2) subscribe_due_cong [of "currentListeners t" oid "currentListeners s"]
      by simp
    from Cons.IH [OF rest this] keep show ?thesis by simp
  qed
qed


subsection \<open>The effects of a pass, slot by slot\<close>

lemma body_due:
  assumes "resolveListener h i (getOverlay st oid) = (logs, Some (lt, li, d))"
      and "subscribe_due h st i oid (currentListeners s)"
      and "getDeviceById h d = Some dev"
  shows "listenersIntevalFn_body h st i oid s =
           Inr ([ConsoleLog (StartingListener oid (name dev) lt li)]
                @ release_current oid (currentListeners s oid)
                @ [Listen oid d li (nextListener s)]
                @ current_update oid lt li dev,
                s\<lparr> currentListeners := (currentListeners s)(oid \<mapsto>
                       \<lparr> listenerType = lt, listener = nextListener s,
                         device = o_device (getOverlay st oid) \<rparr>),
                   nextListener := Suc (nextListener s) \<rparr>)"
  using assms resolve_cases [OF assms(1)]
  by (auto simp: listenersIntevalFn_body_def subscribe_due_def Let_def current_update_def)

lemma body_settled':
  assumes "\<not> subscribe_due h st i oid (currentListeners s)"
  shows "listenersIntevalFn_body h st i oid s =
           Inr (fst (resolveListener h i (getOverlay st oid))
                @ (if o_type (getOverlay st oid) = OverlayType_Text
                   then release_current oid (currentListeners s oid) @ [static_update st oid]
                   else []), s)"
  using body_settled [OF assms] by (simp add: static_update_def)

lemma logs_untagged:
  "\<forall>e\<in>set (fst (resolveListener h i ov)). effect_overlay e = None"
  by (auto simp: resolveListener_def split: option.splits)

lemma release_tagged:
  "\<forall>e\<in>set (release_current oid c). effect_overlay e = Some oid"
  by (auto simp: release_current_def split: option.splits)

lemma update_tagged:
  "\<forall>e\<in>set (current_update oid lt li dev). effect_overlay e = Some oid"
  by (auto simp: current_update_def)

lemma body_tags:
  assumes "listenersIntevalFn_body h st i x s = Inr (e, t)" and "ev \<in> set e"
  shows "effect_overlay ev = None \<or> effect_overlay ev = Some x"
proof (cases "subscribe_due h st i x (currentListeners s)")
  case False
  from body_settled' [OF False] assms logs_untagged [of h i "getOverlay st x"]
    release_tagged [of x "currentListeners s x"]
  show ?thesis by (auto simp: static_update_def split: if_splits)
next
  case True
  then obtain logs lt li d where r: "resolveListener h i (getOverlay st x) = (logs, Some (lt, li, d))"
    by (cases "resolveListener h i (getOverlay st x)") (auto simp: subscribe_due_def Let_def split: option.splits)
  from assms(1) obtain dev where dev: "getDeviceById h d = Some dev"
    using r True by (cases "getDeviceById h d") (auto simp: listenersIntevalFn_body_def subscribe_due_def Let_def)
  from body_due [OF r True dev] assms release_tagged [of x "currentListeners s x"]
    update_tagged [of x lt li dev]
  show ?thesis by auto
qed

lemma body_other_untagged:
  assumes "listenersIntevalFn_body h st i x s = Inr (e, t)" and "x \<noteq> oid"
  shows "filter (\<lambda>ev. effect_overlay ev = Some oid) e = []"
  using body_tags [OF assms(1)] assms(2) by (fastforce simp: filter_empty_conv)


text \<open>What a pass does for a slot that is not due, as long as it stays so.\<close>

lemma settled_pass_effects:
  assumes "listenersIntevalFn h ids st i s = (evs, s', r)"
      and "\<not> subscribe_due h st i oid (currentListeners s)"
  shows "\<exists>n\<le>count_list ids oid.
           (r = None \<longrightarrow> n = count_list ids oid) \<and>
           filter (\<lambda>ev. effect_overlay ev = Some oid) evs =
             concat (replicate n
               (if o_type (getOverlay st oid) = OverlayType_Text
                then release_current oid (currentListeners s oid) @ [static_update st oid]
                else []))"
  using assms
proof (induction ids arbitrary: s evs)
  case Nil
  then show ?case by simp
next
  case (Cons x xs)
  let ?Q = "if o_type (getOverlay st oid) = OverlayType_Text
            then release_current oid (currentListeners s oid) @ [static_update st oid]
            else []"
  show ?case
  proof (cases "listenersIntevalFn_body h st i x s")
    case (Inl e)
    with Cons.prems have "evs = []" "r = Some e" by simp_all
    then show ?thesis by (intro exI [of _ 0]) simp
  next
    case (Inr p)
    obtain e t where p: "p = (e, t)" by (cases p)
    obtain evs' where rest: "listenersIntevalFn h xs st i t = (evs', s', r)"
      and evs: "evs = e @ evs'"
      using Cons.prems(1) Inr p by (auto split: prod.splits)
    show ?thesis
    proof (cases "x = oid")
      case True
      from body_settled' [OF Cons.prems(2)] Inr p True
      have t: "t = s" and e: "e = fst (resolveListener h i (getOverlay st oid)) @ ?Q"
        by simp_all
      have fe: "filter (\<lambda>ev. effect_overlay ev = Some oid) e = ?Q"
        using logs_untagged [of h i "getOverlay st oid"]
          release_tagged [of oid "currentListeners s oid"]
        by (auto simp: e static_update_def filter_empty_conv filter_id_conv)
      from Cons.IH [OF rest [unfolded t] Cons.prems(2)] obtain n
        where n: "n \<le> count_list xs oid" "r = None \<longrightarrow> n = count_list xs oid"
          "filter (\<lambda>ev. effect_overlay ev = Some oid) evs' = concat (replicate n ?Q)"
        by blast
      show ?thesis
        using n fe True by (intro exI [of _ "Suc n"]) (simp add: evs)
    next
      case False
      have keep: "currentListeners t oid = currentListeners s oid"
        using body_other [of h st i x s e t oid] Inr p False by simp
      then have "\<not> subscribe_due h st i oid (currentListeners t)"
        using Cons.prems(2) subscribe_due_cong [of "currentListeners t" oid "currentListeners s"]
        by simp
      from Cons.IH [OF rest this, unfolded keep] obtain n
        where n: "n \<le> count_list xs oid" "r = None \<longrightarrow> n = count_list xs oid"
          "filter (\<lambda>ev. effect_overlay ev = Some oid) evs' = concat (replicate n ?Q)"
        by blast
      have "filter (\<lambda>ev. effect_overlay ev = Some oid) e = []"
        using body_other_untagged [of h st i x s e t oid] Inr p False by simp
      then show ?thesis
        using n False by (intro exI [of _ n]) (simp add: evs)
    qed
  qed
qed

text \<open>What a pass that completes does for a slot that is due.\<close>

lemma due_pass_effects:
  assumes "listenersIntevalFn h ids st i s = (evs, s', None)"
      and "subscribe_due h st i oid (currentListeners s)"
      and "oid \<in> set ids"
      and "resolveListener h i (getOverlay st oid) = (logs, Some (lt, li, d))"
  shows "\<exists>dev n. getDeviceById h d = Some dev \<and>
           filter (\<lambda>ev. effect_overlay ev = Some oid) evs =
             release_current oid (currentListeners s oid) @ [Listen oid d li n]
             @ current_update oid lt li dev \<and>
           currentListeners s' oid =
             Some \<lparr> listenerType = lt, listener = n, device = o_device (getOverlay st oid) \<rparr>"
  using assms(1-3)
proof (induction ids arbitrary: s evs)
  case Nil
  then show ?case by simp
next
  case (Cons x xs)
  from Cons.prems(1) obtain e t where body: "listenersIntevalFn_body h st i x s = Inr (e, t)"
    by (cases "listenersIntevalFn_body h st i x s") (auto split: prod.splits)
  obtain evs' where rest: "listenersIntevalFn h xs st i t = (evs', s', None)"
    and evs: "evs = e @ evs'"
    using Cons.prems(1) body by (auto split: prod.splits)
  show ?case
  proof (cases "x = oid")
    case True
    obtain dev where dev: "getDeviceById h d = Some dev"
      using body True Cons.prems(2) assms(4)
      by (cases "getDeviceById h d")
        (auto simp: listenersIntevalFn_body_def subscribe_due_def Let_def)
    from body_due [OF assms(4) Cons.prems(2) dev] body True
    have e: "e = [ConsoleLog (StartingListener oid (name dev) lt li)]
                @ release_current oid (currentListeners s oid)
                @ [Listen oid d li (nextListener s)]
                @ current_update oid lt li dev"
      and t: "currentListeners t oid =
                Some \<lparr> listenerType = lt, listener = nextListener s,
                       device = o_device (getOverlay st oid) \<rparr>"
      by auto
    have fe: "filter (\<lambda>ev. effect_overlay ev = Some oid) e =
                release_current oid (currentListeners s oid) @ [Listen oid d li (nextListener s)]
                @ current_update oid lt li dev"
      using release_tagged [of oid "currentListeners s oid"] update_tagged [of oid lt li dev]
      by (simp add: e filter_id_conv)
    have settled: "\<not> subscribe_due h st i oid (currentListeners t)"
      using body_makes_settled body True by simp
    have nonText: "o_type (getOverlay st oid) \<noteq> OverlayType_Text"
      using assms(4) by (auto simp: resolve_None_Text)
    from settled_pass_effects [OF rest settled] nonText
    have "filter (\<lambda>ev. effect_overlay ev = Some oid) evs' = []" by auto
    moreover have "currentListeners s' oid = currentListeners t oid"
      using pass_keeps_settled [OF rest settled] .
    ultimately show ?thesis using dev fe t by (simp add: evs)
  next
    case False
    have keep: "currentListeners t oid = currentListeners s oid"
      using body_other [OF body, of oid] False by simp
    then have due: "subscribe_due h st i oid (currentListeners t)"
      using Cons.prems(2) subscribe_due_cong [of "currentListeners t" oid "currentListeners s"]
      by simp
    have "oid \<in> set xs" using Cons.prems(3) False by simp
    from Cons.IH [OF rest due this] keep
      body_other_untagged [OF body, of oid] False
    show ?thesis by (simp add: evs)
  qed
qed

lemma pushes_of_settled:
  "filter (\<lambda>e. \<not> is_release e)
     (concat (replicate n (release_current oid c @ [static_update st oid]))) =
   replicate n (static_update st oid)"
  by (induction n) (auto simp: release_current_def static_update_def split: option.splits)

lemma filter_conj: "filter (\<lambda>e. P e \<and> Q e) xs = filter Q (filter P xs)"
  by (induction xs) auto

lemma resolved_kind_Device:
  assumes "o_type ov = OverlayType_Device" and "resolved_kind h i ov = Some lt"
  shows "resolveListener h i ov =
           ([], Some (lt, if lt = Temperature then Thermometer else HumiditySensor, o_device ov))"
  using assms
  by (auto simp: resolved_kind_def resolveListener_def split: option.splits if_splits)

lemma subs_of_due:
  "filter (\<lambda>e. is_release e \<or> is_subscribe e)
     (release_current oid c @ [Listen oid d li n] @ current_update oid lt li dev) =
   release_current oid c @ [Listen oid d li n]"
  by (auto simp: release_current_def current_update_def split: option.splits)

lemma listen_in_body:
  assumes "listenersIntevalFn_body h st i x s = Inr (e, t)"
      and "Listen oid d li n \<in> set e"
  shows "x = oid \<and>
         (\<exists>dev lt logs pre.
            resolveListener h i (getOverlay st oid) = (logs, Some (lt, li, d)) \<and>
            getDeviceById h d = Some dev \<and>
            e = pre @ [Listen oid d li n] @ current_update oid lt li dev \<and>
            currentListeners t oid =
              Some \<lparr> listenerType = lt, listener = n, device = o_device (getOverlay st oid) \<rparr>)"
proof (cases "subscribe_due h st i x (currentListeners s)")
  case False
  from body_settled' [OF False] assms
  show ?thesis
    by (auto simp: resolveListener_def release_current_def static_update_def
        split: if_splits option.splits)
next
  case True
  then obtain logs lt li' d' where r: "resolveListener h i (getOverlay st x) = (logs, Some (lt, li', d'))"
    by (cases "resolveListener h i (getOverlay st x)")
      (auto simp: subscribe_due_def Let_def split: option.splits)
  from assms(1) obtain dev where dev: "getDeviceById h d' = Some dev"
    using r True by (cases "getDeviceById h d'")
      (auto simp: listenersIntevalFn_body_def subscribe_due_def Let_def)
  from body_due [OF r True dev] assms(1)
  have e: "e = ([ConsoleLog (StartingListener x (name dev) lt li')]
                @ release_current x (currentListeners s x))
                @ [Listen x d' li' (nextListener s)] @ current_update x lt li' dev"
    and t: "currentListeners t x =
              Some \<lparr> listenerType = lt, listener = nextListener s,
                     device = o_device (getOverlay st x) \<rparr>"
    by auto
  from assms(2) have "Listen oid d li n = Listen x d' li' (nextListener s)"
    unfolding e by (auto simp: release_current_def current_update_def split: option.splits if_splits)
  then have eq: "oid = x" "d = d'" "li = li'" "n = nextListener s" by simp_all
  show ?thesis using r dev e t unfolding eq by blast
qed

text \<open>When a pass completes, and where it stops when it does not.\<close>

lemma pass_completes:
  assumes "getDeviceById h (JStr i) \<noteq> None \<or> i = [] \<or>
           (\<forall>x\<in>set ids. o_type (getOverlay st x) \<noteq> OverlayType_FaceDetection)"
  shows "snd (snd (listenersIntevalFn h ids st i s)) = None"
  using assms
proof (induction ids arbitrary: s)
  case Nil
  then show ?case by simp
next
  case (Cons x xs)
  then have "\<nexists>e. listenersIntevalFn_body h st i x s = Inl e"
    by (auto simp: body_raises_iff)
  then obtain e t where body: "listenersIntevalFn_body h st i x s = Inr (e, t)"
    by (cases "listenersIntevalFn_body h st i x s") auto
  from Cons.IH [of t] Cons.prems have "snd (snd (listenersIntevalFn h xs st i t)) = None"
    by auto
  with body show ?case by (cases "listenersIntevalFn h xs st i t") auto
qed

lemma pass_aborts:
  assumes "listenersIntevalFn h ids st i s = (evs, s', Some e)"
  shows "\<exists>pre x post. ids = pre @ x # post \<and>
           listenersIntevalFn h pre st i s = (evs, s', None) \<and>
           listenersIntevalFn_body h st i x s' = Inl e"
  using assms
proof (induction ids arbitrary: s evs)
  case Nil
  then show ?case by simp
next
  case (Cons x xs)
  show ?case
  proof (cases "listenersIntevalFn_body h st i x s")
    case (Inl e')
    with Cons.prems have "evs = []" "s' = s" "e' = e" by simp_all
    with Inl show ?thesis by (intro exI [of _ "[]"] exI [of _ x] exI [of _ xs]) simp
  next
    case (Inr p)
    obtain e0 t where p: "p = (e0, t)" by (cases p)
    obtain evs' where rest: "listenersIntevalFn h xs st i t = (evs', s', Some e)"
      and evs: "evs = e0 @ evs'"
      using Cons.prems Inr p by (auto split: prod.splits)
    from Cons.IH [OF rest] obtain pre y post where ih: "xs = pre @ y # post"
      "listenersIntevalFn h pre st i t = (evs', s', None)"
      "listenersIntevalFn_body h st i y s' = Inl e"
      by blast
    have "x # xs = (x # pre) @ y # post" using ih(1) by simp
    moreover have "listenersIntevalFn h (x # pre) st i s = (evs, s', None)"
      using Inr p ih(2) evs by simp
    ultimately show ?thesis using ih(3) by blast
  qed
qed

subsection \<open>The formatter does not raise\<close>

lemma toFixed_ok:
  assumes "to_integer_or_infinity (to_number h md) = Fin f" "0 \<le> f" "f \<le> 100"
  shows "\<exists>v. toFixed h x md = Inr v"
  using assms by (cases x) (auto simp: toFixed_def)

lemma parse_ok:
  assumes "o_regex ov = JStr r"
      and "lt = Some Temperature \<or> lt = Some Humidity \<longrightarrow>
             (\<exists>f. to_integer_or_infinity (to_number h (o_maxDecimals ov)) = Fin f \<and> 0 \<le> f \<and> f \<le> 100)"
      and "lt = Some Temperature \<longrightarrow>
             truthy (o_device ov) \<and> getDeviceById h (o_device ov) \<noteq> None"
  shows "\<exists>v. parseOverlayData h lt data ov = Inr v"
proof (cases lt)
  case None
  then show ?thesis by (simp add: parseOverlayData_def overlay_value_unit_def str_truthy_def)
next
  case (Some k)
  show ?thesis
  proof (cases k)
    case Face
    with Some assms(1) show ?thesis
      by (simp add: parseOverlayData_def overlay_value_unit_def)
  next
    case Humidity
    with Some assms(2) obtain f where "to_integer_or_infinity (to_number h (o_maxDecimals ov)) = Fin f"
      "0 \<le> f" "f \<le> 100" by auto
    from toFixed_ok [OF this] obtain v where "toFixed h (number_of_data h data) (o_maxDecimals ov) = Inr v"
      by blast
    with Some Humidity assms(1) show ?thesis
      by (simp add: parseOverlayData_def overlay_value_unit_def)
  next
    case Temperature
    with Some assms(2) obtain f where "to_integer_or_infinity (to_number h (o_maxDecimals ov)) = Fin f"
      "0 \<le> f" "f \<le> 100" by auto
    from toFixed_ok [OF this] obtain v where "toFixed h (number_of_data h data) (o_maxDecimals ov) = Inr v"
      by blast
    with Some Temperature assms(1,3) show ?thesis
      by (auto simp: parseOverlayData_def overlay_value_unit_def)
  qed
qed

lemma parse_no_value:
  assumes "lt = None \<or> (lt = Some Face \<and> \<not> str_truthy (face_label data))"
  shows "parseOverlayData h lt data ov = Inr (o_text ov)"
  using assms by (auto simp: parseOverlayData_def overlay_value_unit_def str_truthy_def)

subsection \<open>Settings\<close>

lemma foldl_upd_other:
  "\<forall>s\<in>set st. key s \<noteq> k \<Longrightarrow>
     foldl (\<lambda>tot curr. tot(key curr \<mapsto> curr)) m st k = m k"
  by (induction st arbitrary: m) auto

lemma value_at_missing:
  "\<forall>s\<in>set st. key s \<noteq> k \<Longrightarrow> value_at (settingsByKey st) k = JUndefined"
  by (simp add: value_at_def settingsByKey_def foldl_upd_other)

lemma body_in_settings:
  "overlayId \<in> set overlayIds \<Longrightarrow>
     set (getOverlaySettings_body getItem overlayId) \<subseteq> set (getOverlaySettings getItem overlayIds)"
  by (auto simp: getOverlaySettings_def)

subsection \<open>Face labels and replacement\<close>

lemma find_first:
  "\<forall>x\<in>set pre. \<not> P x \<Longrightarrow> P d \<Longrightarrow> find P (pre @ d # post) = Some d"
  by (induction pre) auto

lemma face_label_none:
  assumes "\<forall>detections. data = ObjectsDetected (Some detections) \<longrightarrow>
             (\<forall>det\<in>set detections. className det \<noteq> ''face'')"
  shows "face_label data = None"
proof (cases data)
  case (Prim v)
  then show ?thesis by (simp add: face_label_def)
next
  case (ObjectsDetected ds)
  show ?thesis
  proof (cases ds)
    case None
    with ObjectsDetected show ?thesis by (simp add: face_label_def)
  next
    case (Some detections)
    with ObjectsDetected assms have "find (\<lambda>det. className det = ''face'') detections = None"
      by (simp add: find_None_iff)
    with ObjectsDetected Some show ?thesis by (simp add: face_label_def)
  qed
qed

lemma face_label_first:
  assumes "\<forall>x\<in>set pre. className x \<noteq> ''face''" and "className det = ''face''"
  shows "face_label (ObjectsDetected (Some (pre @ det # post))) = label det"
  using find_first [of pre "\<lambda>det. className det = ''face''" det post] assms
  by (simp add: face_label_def)

lemma parse_face_value:
  assumes "face_label data = Some l" and "l \<noteq> []" and "o_regex overlay = JStr r"
  shows "parseOverlayData h (Some Face) data overlay =
           Inr (JStr (js_replace (js_replace r ''${value}'' l) ''${unit}'' []))"
  using assms
  by (simp add: parseOverlayData_def overlay_value_unit_def str_truthy_def str_or_empty_def)

lemma get_substitution_plain:
  "CHR ''$'' \<notin> set l \<Longrightarrow> get_substitution m a b l = l"
  by (induction m a b l rule: get_substitution.induct) auto

lemma split_first_Some:
  "split_first pat s = Some (a, b) \<Longrightarrow> s = a @ pat @ b"
proof (induction s arbitrary: a)
  case Nil
  then show ?case by (simp split: if_splits)
next
  case (Cons c cs)
  show ?case
  proof (cases "prefix pat (c # cs)")
    case True
    with Cons.prems have "a = []" "b = drop (length pat) (c # cs)" by simp_all
    moreover from True obtain zs where "c # cs = pat @ zs" by (auto simp: prefix_def)
    ultimately show ?thesis by simp
  next
    case False
    with Cons.prems obtain a' where "split_first pat cs = Some (a', b)" "a = c # a'"
      by (auto split: prod.splits)
    with Cons.IH [of a'] show ?thesis by simp
  qed
qed

lemma split_first_None: "split_first pat s = None \<longleftrightarrow> \<not> sublist pat s"
  by (induction s) (auto simp: sublist_Cons_right)

lemma js_replace_plain:
  "CHR ''$'' \<notin> set l \<Longrightarrow>
     js_replace r pat l = (case split_first pat r of None \<Rightarrow> r | Some (a, b) \<Rightarrow> a @ l @ b)"
  by (simp add: js_replace_def get_substitution_plain split: option.splits)

subsection \<open>Decimal digits and toFixed\<close>

lemma floor_rat_numeral_divide:
  "\<lfloor>(numeral a :: rat) / numeral b\<rfloor> = numeral a div numeral b"
  using floor_divide_of_int_eq [of "numeral a" "numeral b", where ?'a = rat] by simp

lemma digit_table:
  "\<forall>d\<in>set [0..<10]. digit_val (digit_char d) = d \<and> digit_char d \<in> set ''0123456789''"
  by code_simp

lemma digit_char_val: "d < 10 \<Longrightarrow> digit_val (digit_char d) = d"
  using digit_table by simp

lemma digit_char_in: "d < 10 \<Longrightarrow> digit_char d \<in> set ''0123456789''"
  using digit_table by (simp del: set_simps list.set)

lemma digits_set: "set (digits n) \<subseteq> set ''0123456789''"
proof (induction n rule: digits.induct)
  case (1 n)
  show ?case
  proof (cases "n < 10")
    case True
    then show ?thesis using digit_char_in [of n] by (subst digits.simps) simp
  next
    case False
    have "n mod 10 < 10" by simp
    from digit_char_in [OF this] 1 [OF False] False show ?thesis
      by (subst digits.simps) simp
  qed
qed

lemma digits_nonempty: "digits n \<noteq> []"
  by (subst digits.simps) simp

lemma nat_of_digits_snoc:
  "nat_of_digits (cs @ [c]) = 10 * nat_of_digits cs + digit_val c"
  by (simp add: nat_of_digits_def)

lemma nat_of_digits_digits: "nat_of_digits (digits n) = n"
proof (induction n rule: digits.induct)
  case (1 n)
  show ?case
  proof (cases "n < 10")
    case True
    then show ?thesis
      by (subst digits.simps) (simp add: nat_of_digits_def digit_char_val)
  next
    case False
    have "n mod 10 < 10" by simp
    from digit_char_val [OF this] 1 [OF False] False show ?thesis
      by (subst digits.simps) (simp add: nat_of_digits_snoc)
  qed
qed

lemma nat_of_digits_zeros:
  "nat_of_digits (replicate z (CHR ''0'') @ cs) = nat_of_digits cs"
proof -
  have "foldl (\<lambda>a c. 10 * a + digit_val c) 0 (replicate z (CHR ''0'')) = 0"
    by (induction z) (simp_all add: digit_val_def)
  then show ?thesis by (simp add: nat_of_digits_def)
qed

text \<open>The shape of what \<^verbatim>\<open>toFixed\<close> prints for a finite value below \<open>10^21\<close>.\<close>

lemma fixed_string_shape:
  assumes "\<bar>q\<bar> < 10 ^ 21"
  shows "\<exists>ip fp.
           fixed_string h q f =
             (if q < 0 then ''-'' else []) @ ip @ (if f = 0 then [] else CHR ''.'' # fp)
           \<and> ip \<noteq> [] \<and> set ip \<subseteq> set ''0123456789''
           \<and> length fp = f \<and> set fp \<subseteq> set ''0123456789''
           \<and> nat_of_digits (ip @ fp) = nat \<lfloor>\<bar>q\<bar> * 10 ^ f + 1 / 2\<rfloor>"
proof (cases "f = 0")
  case True
  let ?n = "nat \<lfloor>\<bar>q\<bar> * 10 ^ f + 1 / 2\<rfloor>"
  have "fixed_string h q f = (if q < 0 then ''-'' else []) @ digits ?n"
    using assms True by (simp add: fixed_string_def Let_def)
  with True digits_nonempty [of ?n] digits_set [of ?n] nat_of_digits_digits [of ?n]
  show ?thesis
    by (intro exI [of _ "digits ?n"] exI [of _ "[]"]) simp
next
  case False
  define n where "n = nat \<lfloor>\<bar>q\<bar> * 10 ^ f + 1 / 2\<rfloor>"
  define m where "m = digits n"
  define m' where "m' = (if length m \<le> f then replicate (f + 1 - length m) (CHR ''0'') @ m else m)"
  define ip where "ip = take (length m' - f) m'"
  define fp where "fp = drop (length m' - f) m'"
  have fs: "fixed_string h q f = (if q < 0 then ''-'' else []) @ ip @ CHR ''.'' # fp"
    using assms False by (simp add: fixed_string_def Let_def n_def m_def m'_def ip_def fp_def)
  have len: "f < length m'"
    by (cases "length m \<le> f") (simp_all add: m'_def)
  have zero: "CHR ''0'' \<in> set ''0123456789''" by simp
  have "set m \<subseteq> set ''0123456789''" unfolding m_def by (rule digits_set)
  with zero have sub: "set m' \<subseteq> set ''0123456789''"
    by (cases "length m \<le> f")
      (auto simp del: set_simps list.set simp add: m'_def set_replicate_conv_if)
  have "length ip = length m' - f" by (simp add: ip_def)
  with len have "ip \<noteq> []" by auto
  moreover have "set ip \<subseteq> set ''0123456789''"
    using sub set_take_subset [of "length m' - f" m'] unfolding ip_def by blast
  moreover have "length fp = f" using len by (simp add: fp_def)
  moreover have "set fp \<subseteq> set ''0123456789''"
    using sub set_drop_subset [of "length m' - f" m'] unfolding fp_def by blast
  moreover have "nat_of_digits (ip @ fp) = n"
  proof -
    have "ip @ fp = m'" by (simp add: ip_def fp_def)
    moreover have "nat_of_digits m' = n"
      by (cases "length m \<le> f")
        (simp_all add: m'_def m_def nat_of_digits_zeros nat_of_digits_digits)
    ultimately show ?thesis by simp
  qed
  ultimately show ?thesis using fs False unfolding n_def
    by (intro exI [of _ ip] exI [of _ fp]) simp
qed

lemma toFixed_valid:
  assumes "to_integer_or_infinity (to_number h md) = Fin (of_nat f)" and "f \<le> 100"
  shows "toFixed h x md =
           (case x of NaN \<Rightarrow> Inr ''NaN'' | PosInf \<Rightarrow> Inr ''Infinity''
            | NegInf \<Rightarrow> Inr ''-Infinity'' | Fin q \<Rightarrow> Inr (fixed_string h q f))"
  using assms by (simp add: toFixed_def split: jsnum.splits)

lemma parse_humidity_value:
  assumes "toFixed h (number_of_data h data) (o_maxDecimals overlay) = Inr v"
      and "v \<noteq> []" and "o_regex overlay = JStr r"
  shows "parseOverlayData h (Some Humidity) data overlay =
           Inr (JStr (js_replace (js_replace r ''${value}'' v) ''${unit}'' ''%''))"
  using assms
  by (simp add: parseOverlayData_def overlay_value_unit_def str_truthy_def str_or_empty_def)

lemma parse_temperature_value:
  assumes "toFixed h (number_of_data h data) (o_maxDecimals overlay) = Inr v"
      and "v \<noteq> []" and "o_regex overlay = JStr r"
      and "truthy (o_device overlay)" and "getDeviceById h (o_device overlay) = Some d"
  shows "parseOverlayData h (Some Temperature) data overlay =
           Inr (JStr (js_replace (js_replace r ''${value}'' v) ''${unit}''
                        (str_or_empty (temperatureUnit d))))"
  using assms
  by (simp add: parseOverlayData_def overlay_value_unit_def str_truthy_def str_or_empty_def)

subsection \<open>The example passes, evaluated\<close>


lemma ex_pass_text_stale:
  "listenersIntevalFn ex_host [''1''] st_text ''cam'' (s_bound Face JUndefined) =
     ([RemoveListener ''1'' 0,
       OnUpdate \<lparr> p_overlayId = ''1'', p_listenerType = None, p_listenInterface = None,
                  p_data = Prim (JStr ''Hello''), p_device = None, p_noLog = Some True \<rparr>],
      s_bound Face JUndefined, None)"
  by (simp add: reconciler_defs overlay_defs example_defs)

lemma ex_pass_device_change:
  "listenersIntevalFn ex_host [''1'', ''2''] (st_device ''B'' ''${value} ${unit}'' 1) ''cam''
       (s_bound Temperature (JStr ''A'')) =
     ([ConsoleLog (StartingListener ''1'' ''Barn'' Temperature Thermometer),
       RemoveListener ''1'' 0,
       Listen ''1'' (JStr ''B'') Thermometer 1,
       OnUpdate \<lparr> p_overlayId = ''1'', p_listenerType = Some Temperature,
                  p_listenInterface = Some Thermometer, p_data = Prim (JNum (Fin (43 / 2))),
                  p_device = Some (ex_device ''Barn'' [Thermometer, HumiditySensor]),
                  p_noLog = None \<rparr>,
       OnUpdate \<lparr> p_overlayId = ''2'', p_listenerType = None, p_listenInterface = None,
                  p_data = Prim (JStr ''Porch''), p_device = None, p_noLog = Some True \<rparr>],
      \<lparr> currentListeners =
          [''1'' \<mapsto> \<lparr> listenerType = Temperature, listener = 1, device = JStr ''B'' \<rparr>],
        nextListener = 2 \<rparr>, None)"
  by (simp add: reconciler_defs overlay_defs example_defs)

lemma ex_pass_text_twice:
  "listenersIntevalFn ex_host [''1'', ''2'', ''1''] st_text ''cam'' s_empty =
     ([static_update st_text ''1'', static_update st_text ''2'', static_update st_text ''1''],
      s_empty, None)"
  by (simp add: reconciler_defs overlay_defs example_defs static_update_def)

lemma ex_pass_device_gone:
  "listenersIntevalFn ex_host [''1''] (st_device ''Z'' ''${value} ${unit}'' 1) ''cam''
       (s_bound Temperature (JStr ''A'')) =
     ([ConsoleLog (DeviceNotFound (JStr ''Z''))], s_bound Temperature (JStr ''A''), None)"
  by (simp add: reconciler_defs overlay_defs example_defs)

lemma ex_text_type: "o_type (getOverlay st_text ''1'') = OverlayType_Text"
  by (simp add: overlay_defs example_defs)

lemma ex_gone_type:
  "o_type (getOverlay (st_device ''Z'' r m) ''1'') = OverlayType_Device"
  "o_device (getOverlay (st_device ''Z'' r m) ''1'') = JStr ''Z''"
  "resolved_kind ex_host ''cam'' (getOverlay (st_device ''Z'' r m) ''1'') = None"
  by (simp_all add: resolved_kind_def reconciler_defs overlay_defs example_defs)

lemma ex_change_facts:
  "o_type (getOverlay (st_device ''B'' r m) ''1'') = OverlayType_Device"
  "o_device (getOverlay (st_device ''B'' r m) ''1'') = JStr ''B''"
  "resolved_kind ex_host ''cam'' (getOverlay (st_device ''B'' r m) ''1'') = Some Temperature"
  by (simp_all add: resolved_kind_def reconciler_defs overlay_defs example_defs)

lemma ex_pass_first_device:
  "listenersIntevalFn ex_host [''1''] (st_device ''A'' ''${value} ${unit}'' 1) ''cam'' s_empty =
     ([ConsoleLog (StartingListener ''1'' ''Attic'' Temperature Thermometer),
       Listen ''1'' (JStr ''A'') Thermometer 0,
       OnUpdate \<lparr> p_overlayId = ''1'', p_listenerType = Some Temperature,
                  p_listenInterface = Some Thermometer, p_data = Prim (JNum (Fin (43 / 2))),
                  p_device = Some (ex_device ''Attic'' [Thermometer]), p_noLog = None \<rparr>],
      s_bound Temperature (JStr ''A''), None)"
  by (simp add: reconciler_defs overlay_defs example_defs)


lemma ex_bound_entry:
  "currentListeners (s_bound t d) ''1'' = Some \<lparr> listenerType = t, listener = 0, device = d \<rparr>"
  "nextListener (s_bound t d) = 1"
  by (simp_all add: s_bound_def)


lemma ex_pass_own_id_gone:
  "listenersIntevalFn ex_host [''2'', ''1'', ''2''] st_face ''gone'' s_empty =
     ([static_update st_face ''2''], s_empty, Some TypeError)"
  "listenersIntevalFn ex_host [''1'', ''2''] st_face ''gone'' s_empty =
     ([], s_empty, Some TypeError)"
  "listenersIntevalFn ex_host [''2''] st_face ''gone'' s_empty =
     ([static_update st_face ''2''], s_empty, None)"
  by (simp_all add: reconciler_defs overlay_defs example_defs static_update_def)

lemma ex_face_types:
  "o_type (getOverlay st_face ''1'') = OverlayType_FaceDetection"
  "o_type (getOverlay st_face ''2'') = OverlayType_Text"
  "o_text (getOverlay st_face ''2'') = JStr ''Porch''"
  by (simp_all add: overlay_defs example_defs)

text \<open>What any pass, completed or not, does for a slot that is due.\<close>

lemma due_pass_effects_any:
  assumes "listenersIntevalFn h ids st i s = (evs, s', r)"
      and "subscribe_due h st i oid (currentListeners s)"
      and "resolveListener h i (getOverlay st oid) = (logs, Some (lt, li, d))"
  shows "(filter (\<lambda>ev. effect_overlay ev = Some oid) evs = [] \<and>
          currentListeners s' oid = currentListeners s oid \<and> (r \<noteq> None \<or> oid \<notin> set ids))
         \<or> (\<exists>dev n. getDeviceById h d = Some dev \<and>
               filter (\<lambda>ev. effect_overlay ev = Some oid) evs =
                 release_current oid (currentListeners s oid) @ [Listen oid d li n]
                 @ current_update oid lt li dev \<and>
               currentListeners s' oid =
                 Some \<lparr> listenerType = lt, listener = n,
                        device = o_device (getOverlay st oid) \<rparr>)"
  using assms(1,2)
proof (induction ids arbitrary: s evs)
  case Nil
  then show ?case by simp
next
  case (Cons x xs)
  show ?case
  proof (cases "listenersIntevalFn_body h st i x s")
    case (Inl e)
    with Cons.prems(1) have "evs = []" "s' = s" "r = Some e" by simp_all
    then show ?thesis by simp
  next
    case (Inr p)
    obtain e t where p: "p = (e, t)" by (cases p)
    with Inr have body: "listenersIntevalFn_body h st i x s = Inr (e, t)" by simp
    obtain evs' where rest: "listenersIntevalFn h xs st i t = (evs', s', r)"
      and evs: "evs = e @ evs'"
      using Cons.prems(1) body by (auto split: prod.splits)
    show ?thesis
    proof (cases "x = oid")
      case True
      obtain dev where dev: "getDeviceById h d = Some dev"
        using body True Cons.prems(2) assms(3)
        by (cases "getDeviceById h d")
          (auto simp: listenersIntevalFn_body_def subscribe_due_def Let_def)
      from body_due [OF assms(3) Cons.prems(2) dev] body True
      have e: "e = [ConsoleLog (StartingListener oid (name dev) lt li)]
                  @ release_current oid (currentListeners s oid)
                  @ [Listen oid d li (nextListener s)]
                  @ current_update oid lt li dev"
        and t: "currentListeners t oid =
                  Some \<lparr> listenerType = lt, listener = nextListener s,
                         device = o_device (getOverlay st oid) \<rparr>"
        by auto
      have fe: "filter (\<lambda>ev. effect_overlay ev = Some oid) e =
                  release_current oid (currentListeners s oid)
                  @ [Listen oid d li (nextListener s)] @ current_update oid lt li dev"
        using release_tagged [of oid "currentListeners s oid"] update_tagged [of oid lt li dev]
        by (simp add: e filter_id_conv)
      have settled: "\<not> subscribe_due h st i oid (currentListeners t)"
        using body_makes_settled body True by simp
      have nonText: "o_type (getOverlay st oid) \<noteq> OverlayType_Text"
        using assms(3) by (auto simp: resolve_None_Text)
      from settled_pass_effects [OF rest settled] nonText
      have "filter (\<lambda>ev. effect_overlay ev = Some oid) evs' = []" by auto
      moreover have "currentListeners s' oid = currentListeners t oid"
        using pass_keeps_settled [OF rest settled] .
      ultimately show ?thesis using dev fe t by (simp add: evs)
    next
      case False
      have keep: "currentListeners t oid = currentListeners s oid"
        using body_other [OF body, of oid] False by simp
      then have due: "subscribe_due h st i oid (currentListeners t)"
        using Cons.prems(2) subscribe_due_cong [of "currentListeners t" oid "currentListeners s"]
        by simp
      from Cons.IH [OF rest due] keep body_other_untagged [OF body, of oid] False
      show ?thesis by (auto simp: evs)
    qed
  qed
qed

lemma split_first_least:
  "split_first pat s = Some (a, b) \<Longrightarrow> s = a' @ pat @ b' \<Longrightarrow> length a \<le> length a'"
proof (induction s arbitrary: a a')
  case Nil
  then show ?case by (simp split: if_splits)
next
  case (Cons c cs)
  show ?case
  proof (cases "prefix pat (c # cs)")
    case True
    with Cons.prems(1) show ?thesis by simp
  next
    case False
    with Cons.prems(1) obtain a2 where a2: "split_first pat cs = Some (a2, b)" "a = c # a2"
      by (auto split: prod.splits)
    from False Cons.prems(2) have "a' \<noteq> []" by (auto simp: prefix_def)
    then obtain a'' where a'': "a' = c # a''" "cs = a'' @ pat @ b'"
      using Cons.prems(2) by (cases a') auto
    from Cons.IH [OF a2(1) a''(2)] a2(2) a''(1) show ?thesis by simp
  qed
qed

lemma ex_pass_face_then_device:
  "listenersIntevalFn ex_host [''3'', ''1''] st_face_then_device ''gone''
       (s_bound Temperature (JStr ''A'')) =
     ([], s_bound Temperature (JStr ''A''), Some TypeError)"
  by (simp add: reconciler_defs overlay_defs example_defs st_face_then_device_def)

lemma ex_face_then_device_facts:
  "o_type (getOverlay st_face_then_device ''1'') = OverlayType_Device"
  "o_device (getOverlay st_face_then_device ''1'') = JStr ''B''"
  "resolved_kind ex_host ''gone'' (getOverlay st_face_then_device ''1'') = Some Temperature"
  by (simp_all add: resolved_kind_def reconciler_defs overlay_defs example_defs
      st_face_then_device_def)

lemma ex_pass_blank_id:
  "listenersIntevalFn ex_host_blank [''1''] (st_device [] ''${value} ${unit}'' 1) ''cam''
       (s_bound Temperature (JStr ''A'')) =
     ([], s_bound Temperature (JStr ''A''), None)"
  by (simp add: reconciler_defs overlay_defs example_defs ex_host_blank_def)

lemma ex_blank_id_facts:
  "o_type (getOverlay (st_device [] r m) ''1'') = OverlayType_Device"
  "o_device (getOverlay (st_device [] r m) ''1'') = JStr []"
  "resolved_kind ex_host_blank ''cam'' (getOverlay (st_device [] r m) ''1'') = Some Temperature"
  by (simp_all add: resolved_kind_def reconciler_defs overlay_defs example_defs
      ex_host_blank_def)

section \<open>The claims\<close>

subsection \<open>C1: a second pass with unchanged settings\<close>




subsection \<open>C3: a slot that resolves to no listener type\<close>

text \<open>
  C3, as amended. In a pass that completes, a \<^verbatim>\<open>Text\<close> slot with an entry in
  \<^verbatim>\<open>currentListeners\<close> has that entry's listener released and then its static text
  pushed with \<^verbatim>\<open>noLog\<close> set, once for every occurrence of its id among the overlay ids,
  and nothing else is done for it. A \<^verbatim>\<open>Device\<close> slot that resolves to no listener type
  (its device is not in the registry, or has neither interface) gets no release, no
  subscription and no update in any pass, whether it has an entry or not.
\<close>

theorem none_kind_with_binding:
  assumes "listenersIntevalFn h overlayIds settings i s = (effects, s', r)"
  shows "(o_type (getOverlay settings overlayId) = OverlayType_Text \<and>
          currentListeners s overlayId = Some l \<and> r = None \<longrightarrow>
            filter (\<lambda>e. effect_overlay e = Some overlayId) effects =
              concat (replicate (count_list overlayIds overlayId)
                [RemoveListener overlayId (listener l), static_update settings overlayId]))
       \<and> (o_type (getOverlay settings overlayId) = OverlayType_Device \<and>
          resolved_kind h i (getOverlay settings overlayId) = None \<longrightarrow>
            filter (\<lambda>e. effect_overlay e = Some overlayId) effects = [])"
proof (intro conjI impI)
  assume a: "o_type (getOverlay settings overlayId) = OverlayType_Text \<and>
          currentListeners s overlayId = Some l \<and> r = None"
  from settled_pass_effects [OF assms Text_never_due, of overlayId] a
  show "filter (\<lambda>e. effect_overlay e = Some overlayId) effects =
              concat (replicate (count_list overlayIds overlayId)
                [RemoveListener overlayId (listener l), static_update settings overlayId])"
    by (auto simp: release_current_def)
next
  assume a: "o_type (getOverlay settings overlayId) = OverlayType_Device \<and>
          resolved_kind h i (getOverlay settings overlayId) = None"
  then have "\<not> subscribe_due h settings i overlayId (currentListeners s)"
    by (simp add: subscribe_due_def resolved_kind_def)
  from settled_pass_effects [OF assms this] a
  show "filter (\<lambda>e. effect_overlay e = Some overlayId) effects = []"
    by auto
qed

text \<open>
  The witness: overlay 1 as a static text with the entry of an earlier face listener, and
  overlay 1 bound to a device Z that the registry does not know.
\<close>

theorem none_kind_with_binding_witness:
  "filter (\<lambda>e. effect_overlay e = Some ''1'')
     (fst (listenersIntevalFn ex_host [''1''] st_text ''cam'' (s_bound Face JUndefined))) =
     [RemoveListener ''1'' 0, static_update st_text ''1'']
   \<and> filter (\<lambda>e. effect_overlay e = Some ''1'')
       (fst (listenersIntevalFn ex_host [''1''] (st_device ''Z'' ''${value} ${unit}'' 1) ''cam''
              (s_bound Temperature (JStr ''A'')))) = []"
proof -
  have "currentListeners (s_bound Face JUndefined) ''1'' =
          Some \<lparr> listenerType = Face, listener = 0, device = JUndefined \<rparr>"
    by (simp add: s_bound_def)
  with none_kind_with_binding [OF ex_pass_text_stale, THEN conjunct1, rule_format, of "''1''"]
    ex_text_type
  have "filter (\<lambda>e. effect_overlay e = Some ''1'')
     (fst (listenersIntevalFn ex_host [''1''] st_text ''cam'' (s_bound Face JUndefined))) =
     [RemoveListener ''1'' 0, static_update st_text ''1'']"
    by (simp del: listenersIntevalFn.simps add: ex_pass_text_stale static_update_def)
  moreover
  from none_kind_with_binding [OF ex_pass_device_gone, THEN conjunct2, rule_format, of "''1''"]
    ex_gone_type
  have "filter (\<lambda>e. effect_overlay e = Some ''1'')
       (fst (listenersIntevalFn ex_host [''1''] (st_device ''Z'' ''${value} ${unit}'' 1) ''cam''
              (s_bound Temperature (JStr ''A'')))) = []"
    by (simp del: listenersIntevalFn.simps add: ex_pass_device_gone)
  ultimately show ?thesis by simp
qed

text \<open>
  C3 as stated fails twice. Overlay 1 is bound to the unknown device Z and has the entry
  of its former temperature listener: the pass only logs, it releases nothing and the
  entry stays. Overlay 1 is a static text and has the entry of a former face listener:
  the entry is still in \<^verbatim>\<open>currentListeners\<close> after the pass.
\<close>

theorem none_kind_with_binding_counterexample:
  "resolved_kind ex_host ''cam'' (getOverlay (st_device ''Z'' ''${value} ${unit}'' 1) ''1'') = None
   \<and> currentListeners (s_bound Temperature (JStr ''A'')) ''1'' =
       Some \<lparr> listenerType = Temperature, listener = 0, device = JStr ''A'' \<rparr>
   \<and> listenersIntevalFn ex_host [''1''] (st_device ''Z'' ''${value} ${unit}'' 1) ''cam''
       (s_bound Temperature (JStr ''A'')) =
     ([ConsoleLog (DeviceNotFound (JStr ''Z''))], s_bound Temperature (JStr ''A''), None)
   \<and> o_type (getOverlay st_text ''1'') = OverlayType_Text
   \<and> currentListeners
       (fst (snd (listenersIntevalFn ex_host [''1''] st_text ''cam'' (s_bound Face JUndefined))))
       ''1'' = Some \<lparr> listenerType = Face, listener = 0, device = JUndefined \<rparr>"
  using ex_gone_type(3) ex_pass_device_gone ex_text_type
  by (simp del: listenersIntevalFn.simps add: ex_pass_text_stale) (simp add: s_bound_def)

subsection \<open>C10: the static text is pushed in every pass\<close>

text \<open>
  C10, as amended. The iteration of a \<^verbatim>\<open>Text\<close> slot ends, in every state, with the call
  of \<^verbatim>\<open>onUpdateFn\<close> that carries the slot's static text and \<^verbatim>\<open>noLog: true\<close>, and does
  not change the state. So a pass that completes makes exactly that call once for every
  occurrence of the slot's id among the overlay ids, whatever \<^verbatim>\<open>currentListeners\<close> holds
  and whether or not the settings changed since the pass before. A pass that raises does
  so at a face detection slot, the camera's own id not being in the registry, and makes the call once for every occurrence of the slot's
  id before that slot, and for none after it.
\<close>

theorem static_text_pushed_every_pass:
  assumes "o_type (getOverlay settings overlayId) = OverlayType_Text"
  shows "listenersIntevalFn_body h settings i overlayId s =
           Inr (release_current overlayId (currentListeners s overlayId)
                @ [static_update settings overlayId], s)
         \<and> (listenersIntevalFn h overlayIds settings i s = (effects, s', None) \<longrightarrow>
              filter (\<lambda>e. effect_overlay e = Some overlayId \<and> \<not> is_release e) effects =
                replicate (count_list overlayIds overlayId) (static_update settings overlayId))
         \<and> (listenersIntevalFn h overlayIds settings i s = (effects, s', Some e) \<longrightarrow>
              (\<exists>pre x post.
                 overlayIds = pre @ x # post \<and>
                 o_type (getOverlay settings x) = OverlayType_FaceDetection \<and>
                 getDeviceById h (JStr i) = None \<and>
                 filter (\<lambda>e. effect_overlay e = Some overlayId \<and> \<not> is_release e) effects =
                   replicate (count_list pre overlayId) (static_update settings overlayId)))"
proof (intro conjI impI)
  note never = Text_never_due [OF assms, of h i]
  have completed:
    "filter (\<lambda>e. effect_overlay e = Some overlayId \<and> \<not> is_release e) evs =
       replicate (count_list ids overlayId) (static_update settings overlayId)"
    if pass: "listenersIntevalFn h ids settings i s = (evs, t, None)" for ids evs t
  proof -
    from settled_pass_effects [OF pass never] assms
    have "filter (\<lambda>e. effect_overlay e = Some overlayId) evs =
            concat (replicate (count_list ids overlayId)
              (release_current overlayId (currentListeners s overlayId)
               @ [static_update settings overlayId]))"
      by auto
    then show ?thesis by (simp add: filter_conj pushes_of_settled)
  qed
  show "listenersIntevalFn_body h settings i overlayId s =
           Inr (release_current overlayId (currentListeners s overlayId)
                @ [static_update settings overlayId], s)"
    using body_settled' [OF never, of s] assms by (simp add: resolve_None_Text)
  show "filter (\<lambda>e. effect_overlay e = Some overlayId \<and> \<not> is_release e) effects =
           replicate (count_list overlayIds overlayId) (static_update settings overlayId)"
    if "listenersIntevalFn h overlayIds settings i s = (effects, s', None)"
    using that by (rule completed)
  show "\<exists>pre x post.
          overlayIds = pre @ x # post \<and>
          o_type (getOverlay settings x) = OverlayType_FaceDetection \<and>
          getDeviceById h (JStr i) = None \<and>
          filter (\<lambda>e. effect_overlay e = Some overlayId \<and> \<not> is_release e) effects =
            replicate (count_list pre overlayId) (static_update settings overlayId)"
    if "listenersIntevalFn h overlayIds settings i s = (effects, s', Some e)"
  proof -
    from pass_aborts [OF that] obtain pre x post where p: "overlayIds = pre @ x # post"
      "listenersIntevalFn h pre settings i s = (effects, s', None)"
      "listenersIntevalFn_body h settings i x s' = Inl e"
      by blast
    from p(3) have "o_type (getOverlay settings x) = OverlayType_FaceDetection
        \<and> getDeviceById h (JStr i) = None"
      by (simp add: body_raises_iff)
    with p(1) completed [OF p(2)] show ?thesis by blast
  qed
qed

text \<open>
  The witness: overlay 1, with the text Hello, is listed twice, and the pass pushes the
  text twice. And in a pass that raises at the face detection slot 1, the text of overlay
  2 is pushed for the occurrence before that slot only.
\<close>

theorem static_text_pushed_every_pass_witness:
  "o_type (getOverlay st_text ''1'') = OverlayType_Text
   \<and> listenersIntevalFn ex_host [''1'', ''2'', ''1''] st_text ''cam'' s_empty =
     ([static_update st_text ''1'', static_update st_text ''2'', static_update st_text ''1''],
      s_empty, None)
   \<and> filter (\<lambda>e. effect_overlay e = Some ''1'' \<and> \<not> is_release e)
       [static_update st_text ''1'', static_update st_text ''2'', static_update st_text ''1''] =
     [static_update st_text ''1'', static_update st_text ''1'']
   \<and> static_update st_text ''1'' =
       OnUpdate \<lparr> p_overlayId = ''1'', p_listenerType = None, p_listenInterface = None,
                  p_data = Prim (JStr ''Hello''), p_device = None, p_noLog = Some True \<rparr>
   \<and> (\<exists>pre x post.
        [''2'', ''1'', ''2''] = pre @ x # post \<and>
        o_type (getOverlay st_face x) = OverlayType_FaceDetection \<and>
        filter (\<lambda>e. effect_overlay e = Some ''2'' \<and> \<not> is_release e)
          [static_update st_face ''2''] =
          replicate (count_list pre ''2'') (static_update st_face ''2''))"
proof -
  from static_text_pushed_every_pass
    [OF ex_text_type, THEN conjunct2, THEN conjunct1, rule_format, OF ex_pass_text_twice]
    ex_text_type ex_pass_text_twice
  have 1: "o_type (getOverlay st_text ''1'') = OverlayType_Text
   \<and> listenersIntevalFn ex_host [''1'', ''2'', ''1''] st_text ''cam'' s_empty =
     ([static_update st_text ''1'', static_update st_text ''2'', static_update st_text ''1''],
      s_empty, None)
   \<and> filter (\<lambda>e. effect_overlay e = Some ''1'' \<and> \<not> is_release e)
       [static_update st_text ''1'', static_update st_text ''2'', static_update st_text ''1''] =
     [static_update st_text ''1'', static_update st_text ''1'']
   \<and> static_update st_text ''1'' =
       OnUpdate \<lparr> p_overlayId = ''1'', p_listenerType = None, p_listenInterface = None,
                  p_data = Prim (JStr ''Hello''), p_device = None, p_noLog = Some True \<rparr>"
    by (simp add: static_update_def overlay_defs example_defs)
  from static_text_pushed_every_pass
    [OF ex_face_types(2), THEN conjunct2, THEN conjunct2, rule_format,
      OF ex_pass_own_id_gone(1)]
  have 2: "\<exists>pre x post.
        [''2'', ''1'', ''2''] = pre @ x # post \<and>
        o_type (getOverlay st_face x) = OverlayType_FaceDetection \<and>
        filter (\<lambda>e. effect_overlay e = Some ''2'' \<and> \<not> is_release e)
          [static_update st_face ''2''] =
          replicate (count_list pre ''2'') (static_update st_face ''2'')"
    by blast
  from 1 2 show ?thesis by blast
qed

text \<open>
  C10 as stated fails. Overlay 2 is a static text, but the face detection slot 1 comes
  first and the camera's own id is not in the registry: the pass raises at slot 1 and
  never calls the update sink for overlay 2.
\<close>

theorem static_text_pushed_every_pass_counterexample:
  "o_type (getOverlay st_face ''2'') = OverlayType_Text
   \<and> listenersIntevalFn ex_host [''1'', ''2''] st_face ''gone'' s_empty =
       ([], s_empty, Some TypeError)
   \<and> filter (\<lambda>e. effect_overlay e = Some ''2'')
       (fst (listenersIntevalFn ex_host [''1'', ''2''] st_face ''gone'' s_empty)) = []"
  by (simp del: listenersIntevalFn.simps add: ex_face_types ex_pass_own_id_gone)

subsection \<open>C2: when a device slot is subscribed again\<close>



subsection \<open>C4: a slot rebound to another device\<close>

text \<open>
  C4, as amended. A \<^verbatim>\<open>Device\<close> slot has an entry for a device and is now bound to a
  different one, which is in the registry under a truthy id and has the thermometer or the
  humidity interface. In any pass, the releases and subscriptions made for the slot are
  either none, the entry being left as it was (the pass raised before it reached the slot,
  or the slot's id is not among the overlay ids), or exactly two, in this order: the
  release of the entry's listener, then the subscription to the new device, the new
  listener and the new device id being the slot's entry when the pass ends. A pass that
  completes and has the slot's id among its overlay ids makes the two. The release always
  precedes the subscription, so the slot never has two live subscriptions.
\<close>

theorem rebinding_releases_then_subscribes:
  assumes "listenersIntevalFn h overlayIds settings i s = (effects, s', r)"
      and "o_type (getOverlay settings overlayId) = OverlayType_Device"
      and "resolved_kind h i (getOverlay settings overlayId) = Some lType"
      and "truthy (o_device (getOverlay settings overlayId))"
      and "currentListeners s overlayId = Some l"
      and "strict_neq (device l) (o_device (getOverlay settings overlayId))"
  shows "((filter (\<lambda>e. effect_overlay e = Some overlayId \<and> (is_release e \<or> is_subscribe e))
             effects = []
           \<and> currentListeners s' overlayId = Some l
           \<and> (r \<noteq> None \<or> overlayId \<notin> set overlayIds))
          \<or> (\<exists>newListener.
                filter (\<lambda>e. effect_overlay e = Some overlayId \<and> (is_release e \<or> is_subscribe e))
                  effects =
                  [RemoveListener overlayId (listener l),
                   Listen overlayId (o_device (getOverlay settings overlayId))
                     (if lType = Temperature then Thermometer else HumiditySensor) newListener]
                \<and> currentListeners s' overlayId =
                    Some \<lparr> listenerType = lType, listener = newListener,
                           device = o_device (getOverlay settings overlayId) \<rparr>))
         \<and> (r = None \<and> overlayId \<in> set overlayIds \<longrightarrow>
              (\<exists>newListener.
                 filter (\<lambda>e. effect_overlay e = Some overlayId \<and> (is_release e \<or> is_subscribe e))
                   effects =
                   [RemoveListener overlayId (listener l),
                    Listen overlayId (o_device (getOverlay settings overlayId))
                      (if lType = Temperature then Thermometer else HumiditySensor) newListener]
                 \<and> currentListeners s' overlayId =
                     Some \<lparr> listenerType = lType, listener = newListener,
                            device = o_device (getOverlay settings overlayId) \<rparr>))"
proof -
  let ?ov = "getOverlay settings overlayId"
  let ?li = "if lType = Temperature then Thermometer else HumiditySensor"
  let ?SR = "\<lambda>e. effect_overlay e = Some overlayId \<and> (is_release e \<or> is_subscribe e)"
  let ?none = "filter ?SR effects = [] \<and> currentListeners s' overlayId = Some l
                 \<and> (r \<noteq> None \<or> overlayId \<notin> set overlayIds)"
  let ?both = "\<exists>newListener.
                 filter ?SR effects =
                   [RemoveListener overlayId (listener l),
                    Listen overlayId (o_device ?ov) ?li newListener]
                 \<and> currentListeners s' overlayId =
                     Some \<lparr> listenerType = lType, listener = newListener,
                            device = o_device ?ov \<rparr>"
  note res = resolved_kind_Device [OF assms(2,3)]
  have due: "subscribe_due h settings i overlayId (currentListeners s)"
    using assms(2,4,5,6) res by (simp add: subscribe_due_def)
  from due_pass_effects_any [OF assms(1) due res]
  have disj: "?none \<or> ?both"
  proof
    assume "filter (\<lambda>ev. effect_overlay ev = Some overlayId) effects = [] \<and>
            currentListeners s' overlayId = currentListeners s overlayId \<and>
            (r \<noteq> None \<or> overlayId \<notin> set overlayIds)"
    then have ?none using assms(5) by (simp add: filter_conj)
    then show ?thesis ..
  next
    assume "\<exists>dev n. getDeviceById h (o_device ?ov) = Some dev \<and>
              filter (\<lambda>ev. effect_overlay ev = Some overlayId) effects =
                release_current overlayId (currentListeners s overlayId)
                @ [Listen overlayId (o_device ?ov) ?li n]
                @ current_update overlayId lType ?li dev \<and>
              currentListeners s' overlayId =
                Some \<lparr> listenerType = lType, listener = n, device = o_device ?ov \<rparr>"
    then obtain dev n
      where d: "filter (\<lambda>ev. effect_overlay ev = Some overlayId) effects =
                  release_current overlayId (currentListeners s overlayId)
                  @ [Listen overlayId (o_device ?ov) ?li n]
                  @ current_update overlayId lType ?li dev"
        "currentListeners s' overlayId =
           Some \<lparr> listenerType = lType, listener = n, device = o_device ?ov \<rparr>"
      by blast
    have "filter ?SR effects =
            [RemoveListener overlayId (listener l), Listen overlayId (o_device ?ov) ?li n]"
      unfolding filter_conj d(1) subs_of_due using assms(5) by (simp add: release_current_def)
    with d(2) have ?both by blast
    then show ?thesis ..
  qed
  moreover have ?both if "r = None \<and> overlayId \<in> set overlayIds"
    using disj that by blast
  ultimately show ?thesis by blast
qed

text \<open>
  The witness: overlay 1, subscribed to the thermometer A, is bound to the thermometer B;
  overlay 2 is a static text.
\<close>

theorem rebinding_releases_then_subscribes_witness:
  "\<exists>newListener.
     filter (\<lambda>e. effect_overlay e = Some ''1'' \<and> (is_release e \<or> is_subscribe e))
       (fst (listenersIntevalFn ex_host [''1'', ''2''] (st_device ''B'' ''${value} ${unit}'' 1)
              ''cam'' (s_bound Temperature (JStr ''A'')))) =
       [RemoveListener ''1'' 0, Listen ''1'' (JStr ''B'') Thermometer newListener]"
proof -
  have "currentListeners (s_bound Temperature (JStr ''A'')) ''1'' =
          Some \<lparr> listenerType = Temperature, listener = 0, device = JStr ''A'' \<rparr>"
    by (simp add: s_bound_def)
  from rebinding_releases_then_subscribes
    [OF ex_pass_device_change ex_change_facts(1,3) _ this, THEN conjunct2, rule_format]
  show ?thesis
    by (simp del: listenersIntevalFn.simps add: ex_change_facts strict_neq_def ex_pass_device_change)
qed

text \<open>
  C4 as stated fails. Overlay 1 is subscribed to the thermometer A and now bound to the
  thermometer B, but the face detection slot 3 comes first and the camera's own id is not
  in the registry: the pass raises at slot 3 and makes neither the release nor the
  subscription. And when the new device is known to the registry under the empty id, the
  pass completes without releasing or subscribing, the id being falsy.
\<close>

theorem rebinding_releases_then_subscribes_counterexample:
  "o_type (getOverlay st_face_then_device ''1'') = OverlayType_Device
   \<and> o_device (getOverlay st_face_then_device ''1'') = JStr ''B''
   \<and> resolved_kind ex_host ''gone'' (getOverlay st_face_then_device ''1'') = Some Temperature
   \<and> currentListeners (s_bound Temperature (JStr ''A'')) ''1'' =
       Some \<lparr> listenerType = Temperature, listener = 0, device = JStr ''A'' \<rparr>
   \<and> strict_neq (JStr ''A'') (JStr ''B'')
   \<and> listenersIntevalFn ex_host [''3'', ''1''] st_face_then_device ''gone''
       (s_bound Temperature (JStr ''A'')) =
     ([], s_bound Temperature (JStr ''A''), Some TypeError)
   \<and> resolved_kind ex_host_blank ''cam''
       (getOverlay (st_device [] ''${value} ${unit}'' 1) ''1'') = Some Temperature
   \<and> strict_neq (JStr ''A'') (o_device (getOverlay (st_device [] ''${value} ${unit}'' 1) ''1''))
   \<and> listenersIntevalFn ex_host_blank [''1''] (st_device [] ''${value} ${unit}'' 1) ''cam''
       (s_bound Temperature (JStr ''A'')) =
     ([], s_bound Temperature (JStr ''A''), None)"
  by (simp del: listenersIntevalFn.simps
      add: ex_face_then_device_facts ex_pass_face_then_device ex_blank_id_facts
        ex_pass_blank_id ex_bound_entry strict_neq_def)

subsection \<open>C5: exceptions\<close>

text \<open>
  C5, as amended. The pass has no isolation of its own: there is no \<^verbatim>\<open>try\<close> in it. It
  completes, whatever the overlay ids, when the camera's own id is in the registry or is
  empty, or when no slot is a face detection slot. When it does raise, it is a
  \<^verbatim>\<open>TypeError\<close> at a face detection slot, the camera's own id is not in the registry,
  and the pass has done what a pass over the overlay ids before that slot does: the ids
  after it are not processed. And \<^verbatim>\<open>parseOverlayData\<close> returns without raising when the
  template is a string, the decimals convert to an integer from 0 to 100 (for a
  temperature or a humidity) and the bound device is in the registry (for a temperature);
  with no listener type, or a face event without a non-empty face label, it returns the
  static text whatever the overlay holds.
\<close>

theorem exceptions_of_pass_and_formatter:
  "(getDeviceById h (JStr i) \<noteq> None \<or> i = [] \<or>
      (\<forall>x\<in>set overlayIds. o_type (getOverlay settings x) \<noteq> OverlayType_FaceDetection)
    \<longrightarrow> snd (snd (listenersIntevalFn h overlayIds settings i s)) = None)
   \<and> (listenersIntevalFn h overlayIds settings i s = (effects, s', Some e) \<longrightarrow>
        e = TypeError \<and> getDeviceById h (JStr i) = None \<and>
        (\<exists>pre x post.
           overlayIds = pre @ x # post \<and>
           o_type (getOverlay settings x) = OverlayType_FaceDetection \<and>
           listenersIntevalFn h pre settings i s = (effects, s', None)))
   \<and> ((\<exists>r. o_regex overlay = JStr r) \<and>
       (lType = Some Temperature \<or> lType = Some Humidity \<longrightarrow>
          (\<exists>f. to_integer_or_infinity (to_number h (o_maxDecimals overlay)) = Fin f \<and>
               0 \<le> f \<and> f \<le> 100)) \<and>
       (lType = Some Temperature \<longrightarrow>
          truthy (o_device overlay) \<and> getDeviceById h (o_device overlay) \<noteq> None)
      \<longrightarrow> (\<exists>v. parseOverlayData h lType data overlay = Inr v))
   \<and> (lType = None \<or> (lType = Some Face \<and> \<not> str_truthy (face_label data))
      \<longrightarrow> parseOverlayData h lType data overlay = Inr (o_text overlay))"
proof (intro conjI impI)
  assume "getDeviceById h (JStr i) \<noteq> None \<or> i = [] \<or>
      (\<forall>x\<in>set overlayIds. o_type (getOverlay settings x) \<noteq> OverlayType_FaceDetection)"
  then show "snd (snd (listenersIntevalFn h overlayIds settings i s)) = None"
    by (rule pass_completes)
next
  assume a: "listenersIntevalFn h overlayIds settings i s = (effects, s', Some e)"
  from pass_aborts [OF a] obtain pre x post where p: "overlayIds = pre @ x # post"
    "listenersIntevalFn h pre settings i s = (effects, s', None)"
    "listenersIntevalFn_body h settings i x s' = Inl e"
    by blast
  from p(3) have r: "e = TypeError" "o_type (getOverlay settings x) = OverlayType_FaceDetection"
    "getDeviceById h (JStr i) = None"
    by (simp_all add: body_raises_iff)
  from r show "e = TypeError" by simp
  from r show "getDeviceById h (JStr i) = None" by simp
  from p(1,2) r(2) show "\<exists>pre x post.
           overlayIds = pre @ x # post \<and>
           o_type (getOverlay settings x) = OverlayType_FaceDetection \<and>
           listenersIntevalFn h pre settings i s = (effects, s', None)"
    by blast
next
  assume a: "(\<exists>r. o_regex overlay = JStr r) \<and>
       (lType = Some Temperature \<or> lType = Some Humidity \<longrightarrow>
          (\<exists>f. to_integer_or_infinity (to_number h (o_maxDecimals overlay)) = Fin f \<and>
               0 \<le> f \<and> f \<le> 100)) \<and>
       (lType = Some Temperature \<longrightarrow>
          truthy (o_device overlay) \<and> getDeviceById h (o_device overlay) \<noteq> None)"
  then obtain r where r: "o_regex overlay = JStr r" by blast
  from parse_ok [OF r] a show "\<exists>v. parseOverlayData h lType data overlay = Inr v"
    by blast
next
  assume "lType = None \<or> (lType = Some Face \<and> \<not> str_truthy (face_label data))"
  then show "parseOverlayData h lType data overlay = Inr (o_text overlay)"
    by (rule parse_no_value)
qed

text \<open>
  The witness: a pass over a face detection slot and a static text with the camera in the
  registry; a pass whose own id is unknown, which stops at the face detection slot after
  the first static text; a temperature of -2.5 formatted for the thermometer A; and a face
  event with no detection on an overlay without a template.
\<close>

theorem exceptions_of_pass_and_formatter_witness:
  "snd (snd (listenersIntevalFn ex_host [''1'', ''2''] st_face ''cam'' s_empty)) = None
   \<and> (\<exists>pre x post.
        [''2'', ''1'', ''2''] = pre @ x # post \<and>
        o_type (getOverlay st_face x) = OverlayType_FaceDetection \<and>
        listenersIntevalFn ex_host pre st_face ''gone'' s_empty =
          ([static_update st_face ''2''], s_empty, None))
   \<and> (\<exists>v. parseOverlayData ex_host (Some Temperature) (Prim (JNum (Fin (- 5 / 2)))) ex_overlay
            = Inr v)
   \<and> parseOverlayData ex_host (Some Face) (ObjectsDetected (Some []))
       (ex_overlay\<lparr> o_regex := JUndefined \<rparr>) = Inr (JStr ''Hello'')"
proof -
  note main = exceptions_of_pass_and_formatter
  have 1: "snd (snd (listenersIntevalFn ex_host [''1'', ''2''] st_face ''cam'' s_empty)) = None"
    using main [THEN conjunct1, rule_format, of ex_host "''cam''" "[''1'', ''2'']" st_face s_empty]
    by (simp del: listenersIntevalFn.simps add: ex_host_def)
  have 2: "\<exists>pre x post.
        [''2'', ''1'', ''2''] = pre @ x # post \<and>
        o_type (getOverlay st_face x) = OverlayType_FaceDetection \<and>
        listenersIntevalFn ex_host pre st_face ''gone'' s_empty =
          ([static_update st_face ''2''], s_empty, None)"
    using main [THEN conjunct2, THEN conjunct1, rule_format, OF ex_pass_own_id_gone(1)]
    by blast
  have 3: "\<exists>v. parseOverlayData ex_host (Some Temperature) (Prim (JNum (Fin (- 5 / 2)))) ex_overlay
            = Inr v"
    using main [THEN conjunct2, THEN conjunct2, THEN conjunct1, rule_format,
        of ex_overlay "Some Temperature" ex_host "Prim (JNum (Fin (- 5 / 2)))"]
    by (simp add: ex_overlay_def ex_host_def)
  have 4: "parseOverlayData ex_host (Some Face) (ObjectsDetected (Some []))
       (ex_overlay\<lparr> o_regex := JUndefined \<rparr>) = Inr (JStr ''Hello'')"
    using main [THEN conjunct2, THEN conjunct2, THEN conjunct2, rule_format,
        of "Some Face" "ObjectsDetected (Some [])" ex_host "ex_overlay\<lparr> o_regex := JUndefined \<rparr>"]
    by (simp add: ex_overlay_def face_label_def str_truthy_def)
  from 1 2 3 4 show ?thesis by blast
qed

text \<open>
  C5 as stated fails. With the camera's own id unknown to the registry, the pass over a
  face detection slot and a static text raises at the first and never pushes the text of
  the second. And \<^verbatim>\<open>parseOverlayData\<close> raises for a temperature whose device is unknown,
  for 101 decimals, and for a recognised face on an overlay that has no template.
\<close>

theorem exceptions_of_pass_and_formatter_counterexample:
  "listenersIntevalFn ex_host [''1'', ''2''] st_face ''gone'' s_empty =
     ([], s_empty, Some TypeError)
   \<and> o_type (getOverlay st_face ''2'') = OverlayType_Text
   \<and> parseOverlayData ex_host (Some Temperature) (Prim (JNum (Fin 5)))
       (ex_overlay\<lparr> o_device := JStr ''Z'' \<rparr>) = Inl TypeError
   \<and> parseOverlayData ex_host (Some Humidity) (Prim (JNum (Fin 5)))
       (ex_overlay\<lparr> o_maxDecimals := JNum (Fin 101) \<rparr>) = Inl RangeError
   \<and> parseOverlayData ex_host (Some Face)
       (ObjectsDetected (Some [\<lparr> className = ''face'', label = Some ''Alice'' \<rparr>]))
       (getOverlay [] ''1'') = Inl TypeError"
proof -
  have "parseOverlayData ex_host (Some Temperature) (Prim (JNum (Fin 5)))
       (ex_overlay\<lparr> o_device := JStr ''Z'' \<rparr>) = Inl TypeError"
    by code_simp
  moreover have "parseOverlayData ex_host (Some Humidity) (Prim (JNum (Fin 5)))
       (ex_overlay\<lparr> o_maxDecimals := JNum (Fin 101) \<rparr>) = Inl RangeError"
    by code_simp
  moreover have "parseOverlayData ex_host (Some Face)
       (ObjectsDetected (Some [\<lparr> className = ''face'', label = Some ''Alice'' \<rparr>]))
       (getOverlay [] ''1'') = Inl TypeError"
    by code_simp
  ultimately show ?thesis
    using ex_pass_own_id_gone(2) ex_face_types(2) by blast
qed
subsection \<open>C6: a new sensor subscription pushes the current reading\<close>

text \<open>
  C6. Whenever a pass subscribes to a device on the thermometer or the humidity
  interface, the very next thing it does is the call of the update function with the
  device's current temperature (respectively humidity), the slot's overlay id and the
  listener type; and when the pass ends, the entry of the slot in \<^verbatim>\<open>currentListeners\<close>
  holds the new listener and the device id.
\<close>

theorem subscription_pushes_current_value:
  assumes "listenersIntevalFn h overlayIds settings i s = (effects, s', r)"
      and "Listen overlayId deviceId listenInterface newListener \<in> set effects"
      and "listenInterface = Thermometer \<or> listenInterface = HumiditySensor"
  shows "\<exists>realDevice pre post.
           getDeviceById h deviceId = Some realDevice
           \<and> effects = pre
               @ [Listen overlayId deviceId listenInterface newListener,
                  OnUpdate \<lparr> p_overlayId = overlayId,
                    p_listenerType =
                      Some (if listenInterface = Thermometer then Temperature else Humidity),
                    p_listenInterface = Some listenInterface,
                    p_data = Prim (if listenInterface = Thermometer then temperature realDevice
                                   else humidity realDevice),
                    p_device = Some realDevice, p_noLog = None \<rparr>]
               @ post
           \<and> currentListeners s' overlayId =
               Some \<lparr> listenerType =
                        (if listenInterface = Thermometer then Temperature else Humidity),
                      listener = newListener, device = deviceId \<rparr>"
  using assms(1,2)
proof (induction overlayIds arbitrary: s effects)
  case Nil
  then show ?case by simp
next
  case (Cons x xs)
  let ?lt = "if listenInterface = Thermometer then Temperature else Humidity"
  let ?up = "OnUpdate \<lparr> p_overlayId = overlayId, p_listenerType = Some ?lt,
                    p_listenInterface = Some listenInterface,
                    p_data = Prim (if listenInterface = Thermometer then temperature realDevice
                                   else humidity realDevice),
                    p_device = Some realDevice, p_noLog = None \<rparr>"
  from Cons.prems obtain e t where body: "listenersIntevalFn_body h settings i x s = Inr (e, t)"
    by (cases "listenersIntevalFn_body h settings i x s") (auto split: prod.splits)
  obtain evs' where rest: "listenersIntevalFn h xs settings i t = (evs', s', r)"
    and evs: "effects = e @ evs'"
    using Cons.prems(1) body by (auto split: prod.splits)
  from Cons.prems(2) evs consider
    (here) "Listen overlayId deviceId listenInterface newListener \<in> set e"
    | (later) "Listen overlayId deviceId listenInterface newListener \<in> set evs'"
    by auto
  then show ?case
  proof cases
    case here
    from listen_in_body [OF body here] obtain dev lt logs pre
      where x: "x = overlayId"
        and res: "resolveListener h i (getOverlay settings overlayId) =
                    (logs, Some (lt, listenInterface, deviceId))"
        and dev: "getDeviceById h deviceId = Some dev"
        and e: "e = pre @ [Listen overlayId deviceId listenInterface newListener]
                    @ current_update overlayId lt listenInterface dev"
        and t: "currentListeners t overlayId =
                  Some \<lparr> listenerType = lt, listener = newListener,
                         device = o_device (getOverlay settings overlayId) \<rparr>"
      by blast
    from resolve_cases [OF res] assms(3)
    have lt: "lt = ?lt" and d: "deviceId = o_device (getOverlay settings overlayId)"
      by auto
    have settled: "\<not> subscribe_due h settings i overlayId (currentListeners t)"
      using body_makes_settled body x by simp
    have keep: "currentListeners s' overlayId = currentListeners t overlayId"
      using pass_keeps_settled [OF rest settled] .
    have "effects = pre
               @ [Listen overlayId deviceId listenInterface newListener,
                  OnUpdate \<lparr> p_overlayId = overlayId, p_listenerType = Some ?lt,
                    p_listenInterface = Some listenInterface,
                    p_data = Prim (if listenInterface = Thermometer then temperature dev
                                   else humidity dev),
                    p_device = Some dev, p_noLog = None \<rparr>]
               @ evs'"
      using assms(3) by (auto simp: evs e current_update_def lt)
    with dev keep t lt d show ?thesis by auto
  next
    case later
    from Cons.IH [OF rest later] obtain dev pre post
      where ih: "getDeviceById h deviceId = Some dev"
        "evs' = pre
               @ [Listen overlayId deviceId listenInterface newListener,
                  OnUpdate \<lparr> p_overlayId = overlayId, p_listenerType = Some ?lt,
                    p_listenInterface = Some listenInterface,
                    p_data = Prim (if listenInterface = Thermometer then temperature dev
                                   else humidity dev),
                    p_device = Some dev, p_noLog = None \<rparr>]
               @ post"
        "currentListeners s' overlayId =
               Some \<lparr> listenerType = ?lt, listener = newListener, device = deviceId \<rparr>"
      by blast
    have "effects = (e @ pre)
               @ [Listen overlayId deviceId listenInterface newListener,
                  OnUpdate \<lparr> p_overlayId = overlayId, p_listenerType = Some ?lt,
                    p_listenInterface = Some listenInterface,
                    p_data = Prim (if listenInterface = Thermometer then temperature dev
                                   else humidity dev),
                    p_device = Some dev, p_noLog = None \<rparr>]
               @ post"
      by (simp add: evs ih(2))
    with ih(1,3) show ?thesis by blast
  qed
qed

text \<open>
  The witness: overlay 1 is bound to the thermometer A, which reads 21.5, and has no
  entry yet.
\<close>

theorem subscription_pushes_current_value_witness:
  "\<exists>realDevice pre post.
     getDeviceById ex_host (JStr ''A'') = Some realDevice
     \<and> fst (listenersIntevalFn ex_host [''1''] (st_device ''A'' ''${value} ${unit}'' 1) ''cam''
              s_empty) =
         pre @ [Listen ''1'' (JStr ''A'') Thermometer 0,
                OnUpdate \<lparr> p_overlayId = ''1'', p_listenerType = Some Temperature,
                  p_listenInterface = Some Thermometer,
                  p_data = Prim (temperature realDevice),
                  p_device = Some realDevice, p_noLog = None \<rparr>] @ post
     \<and> temperature realDevice = JNum (Fin (43 / 2))
     \<and> currentListeners (s_bound Temperature (JStr ''A'')) ''1'' =
         Some \<lparr> listenerType = Temperature, listener = 0, device = JStr ''A'' \<rparr>"
proof -
  from subscription_pushes_current_value
    [OF ex_pass_first_device, of "''1''" "JStr ''A''" Thermometer 0]
  obtain realDevice pre post where w:
    "getDeviceById ex_host (JStr ''A'') = Some realDevice"
    "fst (listenersIntevalFn ex_host [''1''] (st_device ''A'' ''${value} ${unit}'' 1) ''cam''
              s_empty) =
         pre @ [Listen ''1'' (JStr ''A'') Thermometer 0,
                OnUpdate \<lparr> p_overlayId = ''1'', p_listenerType = Some Temperature,
                  p_listenInterface = Some Thermometer,
                  p_data = Prim (temperature realDevice),
                  p_device = Some realDevice, p_noLog = None \<rparr>] @ post"
    "currentListeners (s_bound Temperature (JStr ''A'')) ''1'' =
         Some \<lparr> listenerType = Temperature, listener = 0, device = JStr ''A'' \<rparr>"
    by (auto simp del: listenersIntevalFn.simps simp add: ex_pass_first_device)
  from w(1) have "temperature realDevice = JNum (Fin (43 / 2))"
    by (auto simp: ex_host_def ex_device_def)
  with w show ?thesis by blast
qed

subsection \<open>C7: the defaults of an overlay\<close>

text \<open>
  C7, as amended. \<^verbatim>\<open>getOverlay\<close> applies one default: the type is \<^verbatim>\<open>Text\<close> when the
  type setting is missing or its value is \<^verbatim>\<open>null\<close> or \<^verbatim>\<open>undefined\<close>. A missing template
  or a missing number of decimals is returned as \<^verbatim>\<open>undefined\<close>. The documented defaults
  of these two are applied by \<^verbatim>\<open>getOverlaySettings\<close>, to the values of the settings it
  builds from the storage: the template setting of a \<^verbatim>\<open>Device\<close> or \<^verbatim>\<open>FaceDetection\<close>
  slot has the value \<^verbatim>\<open>${value} ${unit}\<close> when the stored template is falsy, and the
  decimals setting of a \<^verbatim>\<open>Device\<close> slot has the value 1 when the stored one is
  \<^verbatim>\<open>null\<close> or \<^verbatim>\<open>undefined\<close>.
\<close>

theorem overlay_defaults:
  "(o_type (getOverlay settings overlayId) =
      (if nullish (value_at (settingsByKey settings)
                     (''osdManager:overlay:'' @ overlayId @ '':type''))
       then JStr ''Text''
       else value_at (settingsByKey settings) (''osdManager:overlay:'' @ overlayId @ '':type'')))
   \<and> ((\<forall>s\<in>set settings. key s \<noteq> ''osdManager:overlay:'' @ overlayId @ '':type'')
        \<longrightarrow> o_type (getOverlay settings overlayId) = JStr ''Text'')
   \<and> ((\<forall>s\<in>set settings. key s \<noteq> ''osdManager:overlay:'' @ overlayId @ '':regex'')
        \<longrightarrow> o_regex (getOverlay settings overlayId) = JUndefined)
   \<and> ((\<forall>s\<in>set settings. key s \<noteq> ''osdManager:overlay:'' @ overlayId @ '':maxDecimals'')
        \<longrightarrow> o_maxDecimals (getOverlay settings overlayId) = JUndefined)
   \<and> (overlayId \<in> set overlayIds \<and>
       (nullish_or (getItem (''overlay:'' @ overlayId @ '':type'')) (JStr ''Text'') = JStr ''Device'' \<or>
        nullish_or (getItem (''overlay:'' @ overlayId @ '':type'')) (JStr ''Text'') = JStr ''FaceDetection'')
        \<longrightarrow> (\<exists>s\<in>set (getOverlaySettings getItem overlayIds).
               key s = ''overlay:'' @ overlayId @ '':regex'' \<and>
               svalue s = (if truthy (getItem (''overlay:'' @ overlayId @ '':regex''))
                           then getItem (''overlay:'' @ overlayId @ '':regex'')
                           else JStr ''${value} ${unit}'')))
   \<and> (overlayId \<in> set overlayIds \<and>
       nullish_or (getItem (''overlay:'' @ overlayId @ '':type'')) (JStr ''Text'') = JStr ''Device''
        \<longrightarrow> (\<exists>s\<in>set (getOverlaySettings getItem overlayIds).
               key s = ''overlay:'' @ overlayId @ '':maxDecimals'' \<and>
               svalue s = (if nullish (getItem (''overlay:'' @ overlayId @ '':maxDecimals''))
                           then JNum (Fin 1)
                           else getItem (''overlay:'' @ overlayId @ '':maxDecimals''))))"
proof (intro conjI impI)
  show "o_type (getOverlay settings overlayId) =
      (if nullish (value_at (settingsByKey settings)
                     (''osdManager:overlay:'' @ overlayId @ '':type''))
       then JStr ''Text''
       else value_at (settingsByKey settings) (''osdManager:overlay:'' @ overlayId @ '':type''))"
    by (simp add: getOverlay_def getOverlayKeys_def prefixed_def osdManagerPrefix_def Let_def
        nullish_or_def OverlayType_Text_def)
next
  assume "\<forall>s\<in>set settings. key s \<noteq> ''osdManager:overlay:'' @ overlayId @ '':type''"
  from value_at_missing [OF this] show "o_type (getOverlay settings overlayId) = JStr ''Text''"
    by (simp add: getOverlay_def getOverlayKeys_def prefixed_def osdManagerPrefix_def Let_def
        nullish_or_def OverlayType_Text_def)
next
  assume "\<forall>s\<in>set settings. key s \<noteq> ''osdManager:overlay:'' @ overlayId @ '':regex''"
  from value_at_missing [OF this] show "o_regex (getOverlay settings overlayId) = JUndefined"
    by (simp add: getOverlay_def getOverlayKeys_def prefixed_def osdManagerPrefix_def Let_def)
next
  assume "\<forall>s\<in>set settings. key s \<noteq> ''osdManager:overlay:'' @ overlayId @ '':maxDecimals''"
  from value_at_missing [OF this]
  show "o_maxDecimals (getOverlay settings overlayId) = JUndefined"
    by (simp add: getOverlay_def getOverlayKeys_def prefixed_def osdManagerPrefix_def Let_def)
next
  assume a: "overlayId \<in> set overlayIds \<and>
       (nullish_or (getItem (''overlay:'' @ overlayId @ '':type'')) (JStr ''Text'') = JStr ''Device'' \<or>
        nullish_or (getItem (''overlay:'' @ overlayId @ '':type'')) (JStr ''Text'') = JStr ''FaceDetection'')"
  then have "\<exists>s\<in>set (getOverlaySettings_body getItem overlayId).
               key s = ''overlay:'' @ overlayId @ '':regex'' \<and>
               svalue s = (if truthy (getItem (''overlay:'' @ overlayId @ '':regex''))
                           then getItem (''overlay:'' @ overlayId @ '':regex'')
                           else JStr ''${value} ${unit}'')"
    by (auto simp: getOverlaySettings_body_def getOverlayKeys_def plain_setting_def
        falsy_or_def default_regex_def Let_def
        OverlayType_Text_def OverlayType_Device_def OverlayType_FaceDetection_def)
  with body_in_settings [of overlayId overlayIds getItem] a
  show "\<exists>s\<in>set (getOverlaySettings getItem overlayIds).
               key s = ''overlay:'' @ overlayId @ '':regex'' \<and>
               svalue s = (if truthy (getItem (''overlay:'' @ overlayId @ '':regex''))
                           then getItem (''overlay:'' @ overlayId @ '':regex'')
                           else JStr ''${value} ${unit}'')"
    by blast
next
  assume a: "overlayId \<in> set overlayIds \<and>
       nullish_or (getItem (''overlay:'' @ overlayId @ '':type'')) (JStr ''Text'') = JStr ''Device''"
  then have "\<exists>s\<in>set (getOverlaySettings_body getItem overlayId).
               key s = ''overlay:'' @ overlayId @ '':maxDecimals'' \<and>
               svalue s = (if nullish (getItem (''overlay:'' @ overlayId @ '':maxDecimals''))
                           then JNum (Fin 1)
                           else getItem (''overlay:'' @ overlayId @ '':maxDecimals''))"
    by (auto simp: getOverlaySettings_body_def getOverlayKeys_def plain_setting_def
        nullish_or_def Let_def
        OverlayType_Text_def OverlayType_Device_def OverlayType_FaceDetection_def)
  with body_in_settings [of overlayId overlayIds getItem] a
  show "\<exists>s\<in>set (getOverlaySettings getItem overlayIds).
               key s = ''overlay:'' @ overlayId @ '':maxDecimals'' \<and>
               svalue s = (if nullish (getItem (''overlay:'' @ overlayId @ '':maxDecimals''))
                           then JNum (Fin 1)
                           else getItem (''overlay:'' @ overlayId @ '':maxDecimals''))"
    by blast
qed

text \<open>
  The witness: the settings of a static text give overlay 1 the type \<^verbatim>\<open>Text\<close> and
  overlay 2, which has no type setting, too; and the settings built from a storage that
  holds nothing but the type \<^verbatim>\<open>Device\<close> for overlay 1 carry the two defaults.
\<close>

theorem overlay_defaults_witness:
  "o_type (getOverlay st_text ''1'') = JStr ''Text''
   \<and> o_type (getOverlay st_text ''2'') = JStr ''Text''
   \<and> o_regex (getOverlay st_text ''1'') = JUndefined
   \<and> o_maxDecimals (getOverlay st_text ''1'') = JUndefined
   \<and> (\<exists>s\<in>set (getOverlaySettings
                  (\<lambda>k. if k = ''overlay:1:type'' then JStr ''Device'' else JUndefined) [''1'']).
        key s = ''overlay:1:regex'' \<and> svalue s = JStr ''${value} ${unit}'')
   \<and> (\<exists>s\<in>set (getOverlaySettings
                  (\<lambda>k. if k = ''overlay:1:type'' then JStr ''Device'' else JUndefined) [''1'']).
        key s = ''overlay:1:maxDecimals'' \<and> svalue s = JNum (Fin 1))"
proof -
  note main = overlay_defaults
  have 1: "o_type (getOverlay st_text ''1'') = JStr ''Text''"
    using main [THEN conjunct1, of st_text "''1''"]
    by (simp add: overlay_defs example_defs)
  have 2: "o_type (getOverlay st_text ''2'') = JStr ''Text''"
    using main [THEN conjunct2, THEN conjunct1, rule_format, of st_text "''2''"]
    by (simp add: overlay_defs example_defs)
  have 3: "o_regex (getOverlay st_text ''1'') = JUndefined"
    using main [THEN conjunct2, THEN conjunct2, THEN conjunct1, rule_format, of st_text "''1''"]
    by (simp add: overlay_defs example_defs)
  have 4: "o_maxDecimals (getOverlay st_text ''1'') = JUndefined"
    using main [THEN conjunct2, THEN conjunct2, THEN conjunct2, THEN conjunct1, rule_format,
        of st_text "''1''"]
    by (simp add: overlay_defs example_defs)
  have 5: "\<exists>s\<in>set (getOverlaySettings
                  (\<lambda>k. if k = ''overlay:1:type'' then JStr ''Device'' else JUndefined) [''1'']).
        key s = ''overlay:1:regex'' \<and> svalue s = JStr ''${value} ${unit}''"
    using main [THEN conjunct2, THEN conjunct2, THEN conjunct2, THEN conjunct2, THEN conjunct1,
        rule_format, of "''1''" "[''1'']"
          "\<lambda>k. if k = ''overlay:1:type'' then JStr ''Device'' else JUndefined"]
    by (simp add: nullish_or_def)
  have 6: "\<exists>s\<in>set (getOverlaySettings
                  (\<lambda>k. if k = ''overlay:1:type'' then JStr ''Device'' else JUndefined) [''1'']).
        key s = ''overlay:1:maxDecimals'' \<and> svalue s = JNum (Fin 1)"
    using main [THEN conjunct2, THEN conjunct2, THEN conjunct2, THEN conjunct2, THEN conjunct2,
        rule_format, of "''1''" "[''1'']"
          "\<lambda>k. if k = ''overlay:1:type'' then JStr ''Device'' else JUndefined"]
    by (simp add: nullish_or_def)
  from 1 2 3 4 5 6 show ?thesis by blast
qed

text \<open>
  C7 as stated fails. From the settings of a static text, which hold no template and no
  decimals for overlay 1, \<^verbatim>\<open>getOverlay\<close> returns \<^verbatim>\<open>undefined\<close> for both, not the
  documented defaults.
\<close>

theorem overlay_defaults_counterexample:
  "o_regex (getOverlay st_text ''1'') = JUndefined
   \<and> o_regex (getOverlay st_text ''1'') \<noteq> JStr ''${value} ${unit}''
   \<and> o_maxDecimals (getOverlay st_text ''1'') = JUndefined
   \<and> o_maxDecimals (getOverlay st_text ''1'') \<noteq> JNum (Fin 1)"
  by (simp add: overlay_defs example_defs)

subsection \<open>C9: formatting a face event\<close>

text \<open>
  C9, as amended. For the listener type \<^verbatim>\<open>Face\<close>: when the event has no detection of
  class \<^verbatim>\<open>face\<close> (an empty list, no list, or data that is no detection object), or
  when the first detection of class \<^verbatim>\<open>face\<close> has no label or an empty one, the template
  is not applied and the result is the static text of the slot, unchanged. When the first
  detection of class \<^verbatim>\<open>face\<close> has a non-empty label and the template is a string, the
  result is the template after \<^verbatim>\<open>replace('${value}', label)\<close> and then
  \<^verbatim>\<open>replace('${unit}', '')\<close>. Such a replacement leaves a text without the pattern
  unchanged and otherwise changes the first occurrence of the pattern only. What it puts
  there is the label as it is when the label has no dollar sign; in a label with dollar
  signs, a dollar sign followed by a dollar sign, an ampersand, a backquote or a quote
  stands for a dollar sign, the pattern, the text before the occurrence and the text after
  it, and every other character is kept.
\<close>

theorem face_formatting:
  "((\<forall>detections. data = ObjectsDetected (Some detections) \<longrightarrow>
        (\<forall>det\<in>set detections. className det \<noteq> ''face''))
      \<longrightarrow> parseOverlayData h (Some Face) data overlay = Inr (o_text overlay))
   \<and> ((\<forall>x\<in>set pre. className x \<noteq> ''face'') \<and> className det = ''face'' \<and>
       (label det = None \<or> label det = Some [])
      \<longrightarrow> parseOverlayData h (Some Face) (ObjectsDetected (Some (pre @ det # post))) overlay =
            Inr (o_text overlay))
   \<and> ((\<forall>x\<in>set pre. className x \<noteq> ''face'') \<and> className det = ''face'' \<and>
       label det = Some l \<and> l \<noteq> [] \<and> o_regex overlay = JStr r
      \<longrightarrow> parseOverlayData h (Some Face) (ObjectsDetected (Some (pre @ det # post))) overlay =
            Inr (JStr (js_replace (js_replace r ''${value}'' l) ''${unit}'' [])))
   \<and> (CHR ''$'' \<notin> set l
      \<longrightarrow> js_replace r pat l =
            (case split_first pat r of None \<Rightarrow> r | Some (a, b) \<Rightarrow> a @ l @ b))
   \<and> (split_first pat r = Some (a, b)
      \<longrightarrow> r = a @ pat @ b
          \<and> (\<forall>a' b'. r = a' @ pat @ b' \<longrightarrow> length a \<le> length a')
          \<and> js_replace r pat l = a @ get_substitution pat a b l @ b)
   \<and> (split_first pat r = None \<longleftrightarrow> \<not> sublist pat r)
   \<and> (split_first pat r = None \<longrightarrow> js_replace r pat l = r)
   \<and> get_substitution m a b [] = []
   \<and> get_substitution m a b [CHR ''$''] = [CHR ''$'']
   \<and> get_substitution m a b (CHR ''$'' # CHR ''$'' # rest) =
       CHR ''$'' # get_substitution m a b rest
   \<and> get_substitution m a b (CHR ''$'' # CHR ''&'' # rest) = m @ get_substitution m a b rest
   \<and> get_substitution m a b (CHR ''$'' # CHR ''`'' # rest) = a @ get_substitution m a b rest
   \<and> get_substitution m a b (CHR ''$'' # CHR 0x27 # rest) = b @ get_substitution m a b rest
   \<and> (d \<noteq> CHR ''$'' \<and> d \<noteq> CHR ''&'' \<and> d \<noteq> CHR ''`'' \<and> d \<noteq> CHR 0x27
      \<longrightarrow> get_substitution m a b (CHR ''$'' # d # rest) =
            CHR ''$'' # get_substitution m a b (d # rest))
   \<and> (c \<noteq> CHR ''$''
      \<longrightarrow> get_substitution m a b (c # rest) = c # get_substitution m a b rest)"
proof (intro conjI impI allI)
  assume "\<forall>detections. data = ObjectsDetected (Some detections) \<longrightarrow>
        (\<forall>det\<in>set detections. className det \<noteq> ''face'')"
  from face_label_none [OF this]
  show "parseOverlayData h (Some Face) data overlay = Inr (o_text overlay)"
    by (simp add: parse_no_value str_truthy_def)
next
  assume a: "(\<forall>x\<in>set pre. className x \<noteq> ''face'') \<and> className det = ''face'' \<and>
       (label det = None \<or> label det = Some [])"
  then have "face_label (ObjectsDetected (Some (pre @ det # post))) = label det"
    by (simp add: face_label_first)
  with a show "parseOverlayData h (Some Face) (ObjectsDetected (Some (pre @ det # post))) overlay =
            Inr (o_text overlay)"
    by (auto simp: parse_no_value str_truthy_def)
next
  assume a: "(\<forall>x\<in>set pre. className x \<noteq> ''face'') \<and> className det = ''face'' \<and>
       label det = Some l \<and> l \<noteq> [] \<and> o_regex overlay = JStr r"
  then have "face_label (ObjectsDetected (Some (pre @ det # post))) = Some l"
    by (simp add: face_label_first)
  with a show "parseOverlayData h (Some Face) (ObjectsDetected (Some (pre @ det # post))) overlay =
            Inr (JStr (js_replace (js_replace r ''${value}'' l) ''${unit}'' []))"
    by (simp add: parse_face_value)
next
  assume "CHR ''$'' \<notin> set l"
  then show "js_replace r pat l =
            (case split_first pat r of None \<Rightarrow> r | Some (a, b) \<Rightarrow> a @ l @ b)"
    by (rule js_replace_plain)
next
  assume "split_first pat r = Some (a, b)"
  then show "r = a @ pat @ b" by (rule split_first_Some)
next
  fix a' b'
  assume "split_first pat r = Some (a, b)" and "r = a' @ pat @ b'"
  then show "length a \<le> length a'" by (rule split_first_least)
next
  assume "split_first pat r = Some (a, b)"
  then show "js_replace r pat l = a @ get_substitution pat a b l @ b"
    by (simp add: js_replace_def)
next
  show "split_first pat r = None \<longleftrightarrow> \<not> sublist pat r" by (rule split_first_None)
next
  assume "split_first pat r = None"
  then show "js_replace r pat l = r" by (simp add: js_replace_def)
next
  assume "c \<noteq> CHR ''$''"
  then show "get_substitution m a b (c # rest) = c # get_substitution m a b rest"
    by (cases rest) simp_all
qed simp_all

text \<open>
  The witness: an event without detections on an overlay that has no template gives the
  static text; a person and the face of Alice give the template with her name, in the
  first of two places; a face without a label gives the static text.
\<close>

theorem face_formatting_witness:
  "parseOverlayData ex_host (Some Face) (ObjectsDetected (Some []))
     (ex_overlay\<lparr> o_regex := JUndefined \<rparr>) = Inr (JStr ''Hello'')
   \<and> parseOverlayData ex_host (Some Face)
       (ObjectsDetected (Some [\<lparr> className = ''person'', label = None \<rparr>,
                               \<lparr> className = ''face'', label = Some ''Alice'' \<rparr>]))
       (ex_overlay\<lparr> o_regex := JStr ''${value} is here${unit}, ${value}'' \<rparr>) =
     Inr (JStr ''Alice is here, ${value}'')
   \<and> parseOverlayData ex_host (Some Face)
       (ObjectsDetected (Some [\<lparr> className = ''face'', label = None \<rparr>]))
       ex_overlay = Inr (JStr ''Hello'')"
proof -
  note main = face_formatting
  have 1: "parseOverlayData ex_host (Some Face) (ObjectsDetected (Some []))
     (ex_overlay\<lparr> o_regex := JUndefined \<rparr>) = Inr (JStr ''Hello'')"
    using main [THEN conjunct1, rule_format,
        of "ObjectsDetected (Some [])" ex_host "ex_overlay\<lparr> o_regex := JUndefined \<rparr>"]
    by (simp add: ex_overlay_def)
  have r: "js_replace (js_replace ''${value} is here${unit}, ${value}'' ''${value}'' ''Alice'')
             ''${unit}'' [] = ''Alice is here, ${value}''"
    by code_simp
  have 2: "parseOverlayData ex_host (Some Face)
       (ObjectsDetected (Some [\<lparr> className = ''person'', label = None \<rparr>,
                               \<lparr> className = ''face'', label = Some ''Alice'' \<rparr>]))
       (ex_overlay\<lparr> o_regex := JStr ''${value} is here${unit}, ${value}'' \<rparr>) =
     Inr (JStr ''Alice is here, ${value}'')"
    using main [THEN conjunct2, THEN conjunct2, THEN conjunct1, rule_format,
        of "[\<lparr> className = ''person'', label = None \<rparr>]"
          "\<lparr> className = ''face'', label = Some ''Alice'' \<rparr>" "''Alice''"
          "ex_overlay\<lparr> o_regex := JStr ''${value} is here${unit}, ${value}'' \<rparr>"
          "''${value} is here${unit}, ${value}''" ex_host "[]"]
    by (simp add: r)
  have 3: "parseOverlayData ex_host (Some Face)
       (ObjectsDetected (Some [\<lparr> className = ''face'', label = None \<rparr>]))
       ex_overlay = Inr (JStr ''Hello'')"
    using main [THEN conjunct2, THEN conjunct1, rule_format,
        of "[]" "\<lparr> className = ''face'', label = None \<rparr>" ex_host "[]" ex_overlay]
    by (simp add: ex_overlay_def)
  from 1 2 3 show ?thesis by blast
qed

text \<open>
  C9 as stated fails. A detection of class \<^verbatim>\<open>face\<close> exists, but the first one carries no
  label (a face that was seen and not recognised), or an empty one: the result is the
  static text Hello, not the template with the label put in, although a second face in the
  same event is labelled Alice. And a label that is a dollar sign and an ampersand is not
  put in as it is: the placeholder stays.
\<close>

theorem face_formatting_counterexample:
  "parseOverlayData ex_host (Some Face)
     (ObjectsDetected (Some [\<lparr> className = ''face'', label = None \<rparr>,
                             \<lparr> className = ''face'', label = Some ''Alice'' \<rparr>]))
     (ex_overlay\<lparr> o_regex := JStr ''${value}'' \<rparr>) = Inr (JStr ''Hello'')
   \<and> parseOverlayData ex_host (Some Face)
       (ObjectsDetected (Some [\<lparr> className = ''face'', label = Some [] \<rparr>]))
       (ex_overlay\<lparr> o_regex := JStr ''<${value}>'' \<rparr>) = Inr (JStr ''Hello'')
   \<and> js_replace (js_replace ''<${value}>'' ''${value}'' []) ''${unit}'' [] = ''<>''
   \<and> parseOverlayData ex_host (Some Face)
       (ObjectsDetected (Some [\<lparr> className = ''face'', label = Some ''$&'' \<rparr>]))
       (ex_overlay\<lparr> o_regex := JStr ''<${value}>'' \<rparr>) = Inr (JStr ''<${value}>'')"
  by code_simp

subsection \<open>C8: formatting a temperature or a humidity\<close>

text \<open>
  C8, as amended. Let the decimals of the overlay convert to an integer \<open>f\<close> from 0 to
  100. Then the value put into the template for a temperature or a humidity is
  \<^verbatim>\<open>Number(data ?? 0).toFixed(f)\<close>, a function of the raw value and the decimals: a
  missing raw value (\<^verbatim>\<open>undefined\<close> or \<^verbatim>\<open>null\<close>) is the number 0; \<^verbatim>\<open>toFixed\<close> raises
  for no number, be it negative, zero or not finite; a finite number below \<open>10^21\<close> in
  magnitude is printed as a sign, an integer part and, when \<open>f\<close> is not 0, a point and
  exactly \<open>f\<close> fraction digits, the digits being those of the magnitude times \<open>10^f\<close>
  rounded to the nearest integer; and \<^verbatim>\<open>NaN\<close> and the infinities are not turned into 0
  but printed by name. With a template that is a string, and for a temperature a bound
  device that is in the registry, \<^verbatim>\<open>parseOverlayData\<close> returns the template with that
  value and the unit put in.
\<close>

theorem numeric_formatting:
  assumes "to_integer_or_infinity (to_number h (o_maxDecimals overlay)) = Fin (of_nat f)"
      and "f \<le> 100"
  shows "number_of_data h (Prim JUndefined) = Fin 0
         \<and> number_of_data h (Prim JNull) = Fin 0
         \<and> (\<exists>v. toFixed h x (o_maxDecimals overlay) = Inr v)
         \<and> toFixed h NaN (o_maxDecimals overlay) = Inr ''NaN''
         \<and> toFixed h PosInf (o_maxDecimals overlay) = Inr ''Infinity''
         \<and> toFixed h NegInf (o_maxDecimals overlay) = Inr ''-Infinity''
         \<and> (\<bar>q\<bar> < 10 ^ 21 \<longrightarrow>
              (\<exists>ip fp.
                 toFixed h (Fin q) (o_maxDecimals overlay) =
                   Inr ((if q < 0 then ''-'' else []) @ ip
                        @ (if f = 0 then [] else CHR ''.'' # fp))
                 \<and> ip \<noteq> [] \<and> set ip \<subseteq> set ''0123456789''
                 \<and> length fp = f \<and> set fp \<subseteq> set ''0123456789''
                 \<and> nat_of_digits (ip @ fp) = nat \<lfloor>\<bar>q\<bar> * 10 ^ f + 1 / 2\<rfloor>))
         \<and> (toFixed h (number_of_data h data) (o_maxDecimals overlay) = Inr v \<and> v \<noteq> [] \<and>
             o_regex overlay = JStr r \<longrightarrow>
               parseOverlayData h (Some Humidity) data overlay =
                 Inr (JStr (js_replace (js_replace r ''${value}'' v) ''${unit}'' ''%'')))
         \<and> (toFixed h (number_of_data h data) (o_maxDecimals overlay) = Inr v \<and> v \<noteq> [] \<and>
             o_regex overlay = JStr r \<and>
             truthy (o_device overlay) \<and> getDeviceById h (o_device overlay) = Some d \<longrightarrow>
               parseOverlayData h (Some Temperature) data overlay =
                 Inr (JStr (js_replace (js_replace r ''${value}'' v) ''${unit}''
                              (str_or_empty (temperatureUnit d)))))"
proof (intro conjI impI)
  note valid = toFixed_valid [OF assms]
  show "number_of_data h (Prim JUndefined) = Fin 0" "number_of_data h (Prim JNull) = Fin 0"
    by (simp_all add: number_of_data_def nullish_or_def)
  show "\<exists>v. toFixed h x (o_maxDecimals overlay) = Inr v"
    by (cases x) (simp_all add: valid)
  show "toFixed h NaN (o_maxDecimals overlay) = Inr ''NaN''"
    "toFixed h PosInf (o_maxDecimals overlay) = Inr ''Infinity''"
    "toFixed h NegInf (o_maxDecimals overlay) = Inr ''-Infinity''"
    by (simp_all add: valid)
  show "\<exists>ip fp.
          toFixed h (Fin q) (o_maxDecimals overlay) =
            Inr ((if q < 0 then ''-'' else []) @ ip @ (if f = 0 then [] else CHR ''.'' # fp))
          \<and> ip \<noteq> [] \<and> set ip \<subseteq> set ''0123456789''
          \<and> length fp = f \<and> set fp \<subseteq> set ''0123456789''
          \<and> nat_of_digits (ip @ fp) = nat \<lfloor>\<bar>q\<bar> * 10 ^ f + 1 / 2\<rfloor>"
    if "\<bar>q\<bar> < 10 ^ 21"
    using fixed_string_shape [OF that, of h f] by (simp add: valid)
  show "parseOverlayData h (Some Humidity) data overlay =
          Inr (JStr (js_replace (js_replace r ''${value}'' v) ''${unit}'' ''%''))"
    if "toFixed h (number_of_data h data) (o_maxDecimals overlay) = Inr v \<and> v \<noteq> [] \<and>
        o_regex overlay = JStr r"
    using that by (simp add: parse_humidity_value)
  show "parseOverlayData h (Some Temperature) data overlay =
          Inr (JStr (js_replace (js_replace r ''${value}'' v) ''${unit}''
                       (str_or_empty (temperatureUnit d))))"
    if "toFixed h (number_of_data h data) (o_maxDecimals overlay) = Inr v \<and> v \<noteq> [] \<and>
        o_regex overlay = JStr r \<and>
        truthy (o_device overlay) \<and> getDeviceById h (o_device overlay) = Some d"
    using that by (simp add: parse_temperature_value)
qed

text \<open>
  The witness: the thermometer A, one decimal, the template \<^verbatim>\<open>${value}${unit}\<close>. The
  reading 21.456 is shown as 21.5C; -21.456 has one fraction digit and the digits 215;
  \<^verbatim>\<open>NaN\<close> is printed as such.
\<close>

theorem numeric_formatting_witness:
  "parseOverlayData ex_host (Some Temperature) (Prim (JNum (Fin (2682 / 125)))) ex_overlay =
     Inr (JStr ''21.5C'')
   \<and> (\<exists>ip fp.
        toFixed ex_host (Fin (- 2682 / 125)) (JNum (Fin 1)) = Inr (''-'' @ ip @ CHR ''.'' # fp)
        \<and> length fp = 1 \<and> nat_of_digits (ip @ fp) = 215)
   \<and> toFixed ex_host NaN (JNum (Fin 1)) = Inr ''NaN''
   \<and> number_of_data ex_host (Prim JUndefined) = Fin 0"
proof -
  have valid: "to_integer_or_infinity (to_number ex_host (o_maxDecimals ex_overlay)) =
                 Fin (of_nat 1)"
    by (simp add: ex_overlay_def)
  have le: "(1::nat) \<le> 100" by simp
  have v: "toFixed ex_host (number_of_data ex_host (Prim (JNum (Fin (2682 / 125)))))
             (o_maxDecimals ex_overlay) = Inr ''21.5''"
    by code_simp
  have r: "js_replace (js_replace ''${value}${unit}'' ''${value}'' ''21.5'') ''${unit}'' ''C''
             = ''21.5C''"
    by code_simp
  have d: "getDeviceById ex_host (o_device ex_overlay) = Some (ex_device ''Attic'' [Thermometer])"
    "o_regex ex_overlay = JStr ''${value}${unit}''" "truthy (o_device ex_overlay)"
    "str_or_empty (temperatureUnit (ex_device ''Attic'' [Thermometer])) = ''C''"
    by (simp_all add: example_defs str_or_empty_def)
  have 1: "parseOverlayData ex_host (Some Temperature) (Prim (JNum (Fin (2682 / 125))))
             ex_overlay = Inr (JStr ''21.5C'')"
    using numeric_formatting [OF valid le, THEN conjunct2, THEN conjunct2, THEN conjunct2,
        THEN conjunct2, THEN conjunct2, THEN conjunct2, THEN conjunct2, THEN conjunct2,
        rule_format, of "Prim (JNum (Fin (2682 / 125)))" "''21.5''" "''${value}${unit}''"
          "ex_device ''Attic'' [Thermometer]"]
      v d
    by (simp add: r)
  have n: "nat \<lfloor>\<bar>- 2682 / 125 :: rat\<bar> * 10 ^ 1 + 1 / 2\<rfloor> = 215"
    by code_simp
  have q: "\<bar>- 2682 / 125 :: rat\<bar> < 10 ^ 21" "(- 2682 / 125 :: rat) < 0"
    by simp_all
  have 2: "\<exists>ip fp.
        toFixed ex_host (Fin (- 2682 / 125)) (JNum (Fin 1)) = Inr (''-'' @ ip @ CHR ''.'' # fp)
        \<and> length fp = 1 \<and> nat_of_digits (ip @ fp) = 215"
    using numeric_formatting [OF valid le, THEN conjunct2, THEN conjunct2, THEN conjunct2,
        THEN conjunct2, THEN conjunct2, THEN conjunct2, THEN conjunct1, rule_format,
        of "- 2682 / 125", OF q(1)]
    unfolding n using q(2) by (auto simp: ex_overlay_def)
  have 3: "toFixed ex_host NaN (JNum (Fin 1)) = Inr ''NaN''"
    using numeric_formatting [OF valid le, THEN conjunct2, THEN conjunct2, THEN conjunct2,
        THEN conjunct1]
    by (simp add: ex_overlay_def)
  have 4: "number_of_data ex_host (Prim JUndefined) = Fin 0"
    using numeric_formatting [OF valid le, THEN conjunct1] .
  from 1 2 3 4 show ?thesis by blast
qed

text \<open>
  C8 as stated fails. A raw value that is \<^verbatim>\<open>NaN\<close> is not treated as 0: the humidity
  overlay shows \<^verbatim>\<open>NaN%\<close>, where the number 0 gives \<^verbatim>\<open>0.0%\<close>. And the formatting of
  the number 0 raises a \<^verbatim>\<open>RangeError\<close> when the decimals are -1.
\<close>

theorem numeric_formatting_counterexample:
  "parseOverlayData ex_host (Some Humidity) (Prim (JNum NaN)) ex_overlay = Inr (JStr ''NaN%'')
   \<and> parseOverlayData ex_host (Some Humidity) (Prim (JNum (Fin 0))) ex_overlay =
       Inr (JStr ''0.0%'')
   \<and> parseOverlayData ex_host (Some Humidity) (Prim (JNum (Fin 0)))
       (ex_overlay\<lparr> o_maxDecimals := JNum (Fin (- 1)) \<rparr>) = Inl RangeError"
  by code_simp

end
